theory Spec2Isabelle
  imports Main "HOL-Library.Word"
begin


section \<open>Data model of the SecretVoting contract\<close>

text \<open>
  Solidity value types. An address is only ever stored and compared. The only
  \<open>uint256\<close> arithmetic of the contract is \<open>startTime + duration\<close> (with
  \<open>duration \<le> 365 days\<close>) and \<open>proposalCount++\<close>; a block timestamp in seconds and a
  counter that grows by one per call stay far below \<open>2 ^ 256\<close>, so these checked
  additions do not overflow and both types are natural numbers. \<open>optionCount\<close> is a
  \<open>uint8\<close>. The encrypted counters are 32-bit and the encrypted choice is 8-bit; their
  arithmetic wraps, so their plaintexts are machine words.
\<close>

type_synonym address = nat
type_synonym uint256 = nat
type_synonym uint8 = "8 word"
type_synonym uint32 = "32 word"
type_synonym bytes = "8 word list"

datatype ResultDisclosureStrategy = PUBLIC_AFTER_END | OWNER_ONLY | QUALIFIED_ONLY

record Proposal =
  title :: string
  description :: string
  startTime :: uint256
  endTime :: uint256
  optionCount :: uint8
  finalized :: bool
  owner :: address
  strategy :: ResultDisclosureStrategy
  minQuorum :: uint256

text \<open>
  Modelled from the spec: the encrypted-value capability (the FHE library the contract
  imports) is not part of the repository. A handle is either the null handle, which is
  what a storage slot holds that was never written, or an opaque ciphertext that carries
  its plaintext. The contract never reads the plaintext, only the library functions below
  and decryption do. An imported 8-bit choice is never stored, so it is never null.
\<close>

datatype euint32 = Null32 | Euint32 uint32
datatype euint8 = Euint8 (decrypt8: uint8)
datatype ebool = NullBool | Ebool bool

text \<open>
  The plaintext a handle stands for. The library replaces a null operand by a fresh
  encrypted zero before it computes, so the null handle stands for 0.
\<close>

fun decrypt32 :: "euint32 \<Rightarrow> uint32" where
  "decrypt32 Null32 = 0"
| "decrypt32 (Euint32 v) = v"

fun decryptBool :: "ebool \<Rightarrow> bool" where
  "decryptBool NullBool = False"
| "decryptBool (Ebool b) = b"

text \<open>
  Modelled from the spec: an externally supplied ciphertext comes with the proof bytes that
  attest it; importing it with any other proof fails.
\<close>

datatype externalEuint8 = ExternalEuint8 (ext_plain: uint8) (ext_attestation: bytes)

record ProposalResults =
  optionVotes :: "euint32 list"
  totalVotes :: euint32

datatype ciphertext = Ct8 euint8 | Ct32 euint32 | CtBool ebool

fun isInitialized :: "ciphertext \<Rightarrow> bool" where
  "isInitialized (Ct32 Null32) = False"
| "isInitialized (CtBool NullBool) = False"
| "isInitialized _ = True"

datatype acl_call =
    AllowThis ciphertext
  | Allow ciphertext address
  | AllowTransient ciphertext address
  | MakePubliclyDecryptable ciphertext

datatype event =
    ProposalCreated uint256 address string uint8 uint256 uint256
  | VoteCast uint256 address
  | ProposalFinalized uint256

text \<open>
  The contract's storage, followed by what a call leaves outside the contract: the number
  of homomorphic operations requested from the FHE library (\<open>fheOps\<close>), the permission
  calls that the contract's code and the library code running in it make, in order
  (\<open>aclCalls\<close>), and the emitted events.
\<close>

record SecretVoting =
  proposals :: "uint256 \<Rightarrow> Proposal"
  proposalResults :: "uint256 \<Rightarrow> ProposalResults"
  hasVoted :: "uint256 \<Rightarrow> address \<Rightarrow> ebool"
  hasVotedClear :: "uint256 \<Rightarrow> address \<Rightarrow> bool"
  proposers :: "address \<Rightarrow> bool"
  administrators :: "address \<Rightarrow> bool"
  owner :: address
  proposalCount :: uint256
  defaultVotingDuration :: uint256
  fheOps :: nat
  aclCalls :: "acl_call list"
  events :: "event list"

text \<open>The revert reasons of the contract, one constructor per \<open>require\<close> string, plus
  the three failures that come from outside the contract's own checks: a rejected input
  proof, an array index out of bounds, and a permission call on a handle the contract holds
  no permission on.\<close>

datatype error =
    Not_owner
  | Not_administrator
  | Not_proposer
  | Invalid_option_count
  | Invalid_duration
  | Invalid_quorum
  | Voting_not_started
  | Voting_ended
  | Proposal_finalized
  | Already_voted
  | Voting_not_ended
  | Already_finalized
  | Invalid_option
  | Not_authorized
  | Proof_verification_failed
  | Array_out_of_bounds
  | Sender_not_allowed

definition zero_Proposal :: Proposal where
  "zero_Proposal = \<lparr>title = [], description = [], startTime = 0, endTime = 0,
     optionCount = 0, finalized = False, Proposal.owner = 0, strategy = PUBLIC_AFTER_END,
     minQuorum = 0\<rparr>"

text \<open>The tally of an id never written: an empty array and the null handle.\<close>

definition zero_ProposalResults :: ProposalResults where
  "zero_ProposalResults = \<lparr>optionVotes = [], totalVotes = Null32\<rparr>"

definition days :: uint256 where
  "days = 86400"

definition constructor :: "address \<Rightarrow> SecretVoting" where
  "constructor msg_sender =
     \<lparr>proposals = (\<lambda>_. zero_Proposal),
      proposalResults = (\<lambda>_. zero_ProposalResults),
      hasVoted = (\<lambda>_ _. NullBool),
      hasVotedClear = (\<lambda>_ _. False),
      proposers = (\<lambda>_. False)(msg_sender := True),
      administrators = (\<lambda>_. False)(msg_sender := True),
      owner = msg_sender,
      proposalCount = 0,
      defaultVotingDuration = 7 * days,
      fheOps = 0,
      aclCalls = [],
      events = []\<rparr>"

section \<open>The encrypted-value capability\<close>

text \<open>
  Modelled from the spec: the computing primitives of the FHE library (constant, verified
  import, equality, conditional select, addition). Each operation is counted in
  \<open>fheOps\<close>; addition is the wrapping addition of the 32-bit plaintexts, and an operand
  that is the null handle is first replaced by a fresh encrypted zero, which is one more
  operation.
\<close>

definition FHE_asEuint32 :: "uint32 \<Rightarrow> SecretVoting \<Rightarrow> euint32 \<times> SecretVoting" where
  "FHE_asEuint32 v s = (Euint32 v, s\<lparr>fheOps := fheOps s + 1\<rparr>)"

definition FHE_asEuint8 :: "uint8 \<Rightarrow> SecretVoting \<Rightarrow> euint8 \<times> SecretVoting" where
  "FHE_asEuint8 v s = (Euint8 v, s\<lparr>fheOps := fheOps s + 1\<rparr>)"

definition FHE_asEbool :: "bool \<Rightarrow> SecretVoting \<Rightarrow> ebool \<times> SecretVoting" where
  "FHE_asEbool v s = (Ebool v, s\<lparr>fheOps := fheOps s + 1\<rparr>)"

definition FHE_eq :: "euint8 \<Rightarrow> euint8 \<Rightarrow> SecretVoting \<Rightarrow> ebool \<times> SecretVoting" where
  "FHE_eq a b s = (Ebool (decrypt8 a = decrypt8 b), s\<lparr>fheOps := fheOps s + 1\<rparr>)"

definition FHE_select ::
  "ebool \<Rightarrow> euint32 \<Rightarrow> euint32 \<Rightarrow> SecretVoting \<Rightarrow> euint32 \<times> SecretVoting" where
  "FHE_select c a b s = ((if decryptBool c then a else b), s\<lparr>fheOps := fheOps s + 1\<rparr>)"

definition FHE_add :: "euint32 \<Rightarrow> euint32 \<Rightarrow> SecretVoting \<Rightarrow> euint32 \<times> SecretVoting" where
  "FHE_add a b s =
     (Euint32 (decrypt32 a + decrypt32 b),
      s\<lparr>fheOps := fheOps s + (if a = Null32 then 1 else 0) + (if b = Null32 then 1 else 0) + 1\<rparr>)"

text \<open>
  Modelled from the spec: the verified import. Beyond what the spec says, the library's
  import also grants the account that called the contract a transient permission on the
  imported value.
\<close>

definition FHE_fromExternal ::
  "externalEuint8 \<Rightarrow> bytes \<Rightarrow> address \<Rightarrow> SecretVoting \<Rightarrow> (error + euint8) \<times> SecretVoting" where
  "FHE_fromExternal encryptedOption inputProof msg_sender s =
     (if inputProof = ext_attestation encryptedOption
      then (let imported = Euint8 (ext_plain encryptedOption)
            in (Inr imported,
                s\<lparr>fheOps := fheOps s + 1,
                  aclCalls := aclCalls s @ [AllowTransient (Ct8 imported) msg_sender]\<rparr>))
      else (Inl Proof_verification_failed, s))"

text \<open>
  Modelled from the spec: the three permission primitives and the contract's grant to
  itself. The spec does not say what they do on a handle the contract holds no permission
  on; the library reverts there. Every handle the contract passes to them is either a
  result of one of its own library calls, which it holds permission on (within the call,
  and later once stored after \<open>allowThis\<close>), or the null handle of a slot never written,
  which nobody holds permission on. So a call on the null handle reverts and leaves no
  trace, and every other call goes through and is appended to \<open>aclCalls\<close>.
\<close>

definition acl_request ::
  "acl_call \<Rightarrow> ciphertext \<Rightarrow> SecretVoting \<Rightarrow> (error + unit) \<times> SecretVoting" where
  "acl_request call c s =
     (if isInitialized c then (Inr (), s\<lparr>aclCalls := aclCalls s @ [call]\<rparr>)
      else (Inl Sender_not_allowed, s))"

definition FHE_allowThis :: "ciphertext \<Rightarrow> SecretVoting \<Rightarrow> (error + unit) \<times> SecretVoting" where
  "FHE_allowThis c s = acl_request (AllowThis c) c s"

definition FHE_allow ::
  "ciphertext \<Rightarrow> address \<Rightarrow> SecretVoting \<Rightarrow> (error + unit) \<times> SecretVoting" where
  "FHE_allow c a s = acl_request (Allow c a) c s"

definition FHE_allowTransient ::
  "ciphertext \<Rightarrow> address \<Rightarrow> SecretVoting \<Rightarrow> (error + unit) \<times> SecretVoting" where
  "FHE_allowTransient c a s = acl_request (AllowTransient c a) c s"

definition FHE_makePubliclyDecryptable ::
  "ciphertext \<Rightarrow> SecretVoting \<Rightarrow> (error + unit) \<times> SecretVoting" where
  "FHE_makePubliclyDecryptable c s = acl_request (MakePubliclyDecryptable c) c s"

section \<open>Sequencing\<close>

text \<open>A step that reverts ends the call with its error; otherwise the call goes on from
  the state the step left.\<close>

definition and_then ::
  "(error + 'a) \<times> 's \<Rightarrow> ('a \<Rightarrow> 's \<Rightarrow> (error + 'b) \<times> 's) \<Rightarrow> (error + 'b) \<times> 's" where
  "and_then r k = (case r of (Inl e, s) \<Rightarrow> (Inl e, s) | (Inr x, s) \<Rightarrow> k x s)"

section \<open>Loops and array accesses\<close>

text \<open>
  Every loop of the contract is \<open>for (uint8 i = 0; i < optionCount; i++)\<close>. The counter
  stays below \<open>optionCount \<le> 255\<close>, so \<open>i++\<close> never overflows. A body that reverts
  stops the loop with its error.
\<close>

function for_loop ::
  "nat \<Rightarrow> nat \<Rightarrow> (nat \<Rightarrow> 's \<Rightarrow> (error + unit) \<times> 's) \<Rightarrow> 's \<Rightarrow> (error + unit) \<times> 's" where
  "for_loop i n body s =
     (if i < n
      then (case body i s of
              (Inl e, s') \<Rightarrow> (Inl e, s')
            | (Inr _, s') \<Rightarrow> for_loop (i + 1) n body s')
      else (Inr (), s))"
  by pat_completeness auto
termination
  by (relation "measure (\<lambda>(i, n, body, s). n - i)") auto

declare for_loop.simps [simp del]

text \<open>Reading \<open>results.optionVotes[i]\<close> panics when \<open>i\<close> is not below the array's length.\<close>

definition with_optionVote ::
  "uint256 \<Rightarrow> nat \<Rightarrow> (euint32 \<Rightarrow> SecretVoting \<Rightarrow> (error + unit) \<times> SecretVoting)
    \<Rightarrow> SecretVoting \<Rightarrow> (error + unit) \<times> SecretVoting" where
  "with_optionVote proposalId i f s =
     (let results = proposalResults s proposalId
      in if i < length (optionVotes results)
         then f (optionVotes results ! i) s
         else (Inl Array_out_of_bounds, s))"

section \<open>Modifiers\<close>

definition onlyOwner :: "address \<Rightarrow> SecretVoting \<Rightarrow> bool" where
  "onlyOwner msg_sender s \<longleftrightarrow> msg_sender = SecretVoting.owner s"

definition onlyAdministrator :: "address \<Rightarrow> SecretVoting \<Rightarrow> bool" where
  "onlyAdministrator msg_sender s \<longleftrightarrow>
     administrators s msg_sender \<or> msg_sender = SecretVoting.owner s"

definition onlyProposer :: "address \<Rightarrow> SecretVoting \<Rightarrow> bool" where
  "onlyProposer msg_sender s \<longleftrightarrow>
     proposers s msg_sender \<or> administrators s msg_sender \<or> msg_sender = SecretVoting.owner s"

section \<open>createProposal\<close>

text \<open>The body of the initialisation loop: push an encrypted zero, then \<open>allowThis\<close> on
  element \<open>i\<close> of the array.\<close>

definition createProposal_step ::
  "uint256 \<Rightarrow> nat \<Rightarrow> SecretVoting \<Rightarrow> (error + unit) \<times> SecretVoting" where
  "createProposal_step proposalId i s =
     (let (zero, s1) = FHE_asEuint32 0 s;
          results = proposalResults s1 proposalId;
          s2 = s1\<lparr>proposalResults := (proposalResults s1)
                 (proposalId := results\<lparr>optionVotes := optionVotes results @ [zero]\<rparr>)\<rparr>
      in with_optionVote proposalId i (\<lambda>c. FHE_allowThis (Ct32 c)) s2)"

text \<open>
  The function carries no modifier: \<open>onlyProposer\<close> is declared in the contract but not
  applied here, so the caller's role is never consulted.
\<close>

definition createProposal ::
  "string \<Rightarrow> string \<Rightarrow> uint8 \<Rightarrow> uint256 \<Rightarrow> ResultDisclosureStrategy \<Rightarrow> uint256
    \<Rightarrow> address \<Rightarrow> uint256 \<Rightarrow> SecretVoting \<Rightarrow> (error + uint256) \<times> SecretVoting" where
  "createProposal title' description' optionCount' duration strategy' minQuorum'
       msg_sender block_timestamp s =
     (if \<not> (2 \<le> optionCount' \<and> optionCount' \<le> 10) then (Inl Invalid_option_count, s)
      else if \<not> (0 < duration \<and> duration \<le> 365 * days) then (Inl Invalid_duration, s)
      else if \<not> 0 < minQuorum' then (Inl Invalid_quorum, s)
      else
        let proposalId = proposalCount s;
            s1 = s\<lparr>proposalCount := proposalCount s + 1\<rparr>;
            startTime' = block_timestamp;
            endTime' = startTime' + duration;
            s2 = s1\<lparr>proposals := (proposals s1)(proposalId :=
                   \<lparr>title = title', description = description', startTime = startTime',
                    endTime = endTime', optionCount = optionCount', finalized = False,
                    Proposal.owner = msg_sender, strategy = strategy',
                    minQuorum = minQuorum'\<rparr>)\<rparr>
        in and_then (for_loop 0 (unat optionCount') (createProposal_step proposalId) s2)
             (\<lambda>_ s3.
                let (zero, s4) = FHE_asEuint32 0 s3;
                    results = proposalResults s4 proposalId;
                    s5 = s4\<lparr>proposalResults := (proposalResults s4)
                           (proposalId := results\<lparr>totalVotes := zero\<rparr>)\<rparr>
                in and_then (FHE_allowThis (Ct32 (totalVotes (proposalResults s5 proposalId))) s5)
                     (\<lambda>_ s6.
                        (Inr proposalId,
                         s6\<lparr>events := events s6 @
                             [ProposalCreated proposalId msg_sender title' optionCount'
                                startTime' endTime']\<rparr>))))"

section \<open>vote\<close>

text \<open>The body of the tally loop: an encrypted comparison of the choice with \<open>i\<close>, an
  encrypted 0-or-1 increment, and its addition into counter \<open>i\<close>.\<close>

definition vote_step ::
  "uint256 \<Rightarrow> euint8 \<Rightarrow> nat \<Rightarrow> SecretVoting \<Rightarrow> (error + unit) \<times> SecretVoting" where
  "vote_step proposalId option i s =
     (let (index, s1) = FHE_asEuint8 (of_nat i) s;
          (isMatch, s2) = FHE_eq option index s1;
          (one, s3) = FHE_asEuint32 1 s2;
          (zero, s4) = FHE_asEuint32 0 s3;
          (increment, s5) = FHE_select isMatch one zero s4;
          results = proposalResults s5 proposalId
      in if i < length (optionVotes results)
         then
           let (updated, s6) = FHE_add (optionVotes results ! i) increment s5;
               s7 = s6\<lparr>proposalResults := (proposalResults s6)
                      (proposalId := results\<lparr>optionVotes := (optionVotes results)[i := updated]\<rparr>)\<rparr>
           in with_optionVote proposalId i (\<lambda>c. FHE_allowThis (Ct32 c)) s7
         else (Inl Array_out_of_bounds, s5))"

text \<open>The permission branch at the end of \<open>vote\<close>, by strategy.\<close>

definition vote_permissions ::
  "uint256 \<Rightarrow> address \<Rightarrow> SecretVoting \<Rightarrow> (error + unit) \<times> SecretVoting" where
  "vote_permissions proposalId msg_sender s =
     (let proposal = proposals s proposalId
      in case strategy proposal of
           PUBLIC_AFTER_END \<Rightarrow> (Inr (), s)
         | OWNER_ONLY \<Rightarrow>
             and_then (for_loop 0 (unat (optionCount proposal))
                         (\<lambda>i. with_optionVote proposalId i
                            (\<lambda>c. FHE_allow (Ct32 c) (Proposal.owner proposal))) s)
               (\<lambda>_ s1. FHE_allow (Ct32 (totalVotes (proposalResults s1 proposalId)))
                          (Proposal.owner proposal) s1)
         | QUALIFIED_ONLY \<Rightarrow>
             and_then (for_loop 0 (unat (optionCount proposal))
                         (\<lambda>i. with_optionVote proposalId i
                            (\<lambda>c. FHE_allowTransient (Ct32 c) msg_sender)) s)
               (\<lambda>_ s1. FHE_allowTransient (Ct32 (totalVotes (proposalResults s1 proposalId)))
                          msg_sender s1))"

text \<open>Everything of \<open>vote\<close> after the four \<open>require\<close>s and the verified import.\<close>

definition vote_effects ::
  "uint256 \<Rightarrow> euint8 \<Rightarrow> address \<Rightarrow> SecretVoting \<Rightarrow> (error + unit) \<times> SecretVoting" where
  "vote_effects proposalId option msg_sender s =
     (let proposal = proposals s proposalId
      in and_then (for_loop 0 (unat (optionCount proposal)) (vote_step proposalId option) s)
           (\<lambda>_ s1.
              let (one, s2) = FHE_asEuint32 1 s1;
                  results = proposalResults s2 proposalId;
                  (newTotal, s3) = FHE_add (totalVotes results) one s2;
                  s4 = s3\<lparr>proposalResults := (proposalResults s3)
                         (proposalId := (proposalResults s3 proposalId)\<lparr>totalVotes := newTotal\<rparr>)\<rparr>
              in and_then (FHE_allowThis (Ct32 (totalVotes (proposalResults s4 proposalId))) s4)
                   (\<lambda>_ s5.
                      let (flag, s6) = FHE_asEbool True s5;
                          s7 = s6\<lparr>hasVoted := (hasVoted s6)
                                 (proposalId := (hasVoted s6 proposalId)(msg_sender := flag))\<rparr>;
                          s8 = s7\<lparr>hasVotedClear := (hasVotedClear s7)
                                 (proposalId := (hasVotedClear s7 proposalId)(msg_sender := True))\<rparr>
                      in and_then (FHE_allow (CtBool (hasVoted s8 proposalId msg_sender))
                                     msg_sender s8)
                           (\<lambda>_ s9.
                              and_then (vote_permissions proposalId msg_sender s9)
                                (\<lambda>_ s10.
                                   (Inr (), s10\<lparr>events := events s10 @
                                               [VoteCast proposalId msg_sender]\<rparr>))))))"

definition vote ::
  "uint256 \<Rightarrow> externalEuint8 \<Rightarrow> bytes \<Rightarrow> address \<Rightarrow> uint256 \<Rightarrow> SecretVoting
    \<Rightarrow> (error + unit) \<times> SecretVoting" where
  "vote proposalId encryptedOption inputProof msg_sender block_timestamp s =
     (let proposal = proposals s proposalId
      in if \<not> startTime proposal \<le> block_timestamp then (Inl Voting_not_started, s)
         else if \<not> block_timestamp \<le> endTime proposal then (Inl Voting_ended, s)
         else if finalized proposal then (Inl Proposal_finalized, s)
         else if hasVotedClear s proposalId msg_sender then (Inl Already_voted, s)
         else and_then (FHE_fromExternal encryptedOption inputProof msg_sender s)
                (\<lambda>option s1. vote_effects proposalId option msg_sender s1))"

section \<open>finalizeProposal\<close>

text \<open>
  The record is read through the mapping without any check that the id was ever created.
  In the \<open>OWNER_ONLY\<close> branch the grantee is the contract's state variable \<open>owner\<close>,
  not the field \<open>proposal.owner\<close>. \<open>finalized\<close> is written before the permission
  calls; when one of them reverts, the write is undone with the rest of the call.
\<close>

definition finalizeProposal ::
  "uint256 \<Rightarrow> address \<Rightarrow> uint256 \<Rightarrow> SecretVoting \<Rightarrow> (error + unit) \<times> SecretVoting" where
  "finalizeProposal proposalId msg_sender block_timestamp s =
     (let proposal = proposals s proposalId
      in if \<not> endTime proposal < block_timestamp then (Inl Voting_not_ended, s)
         else if finalized proposal then (Inl Already_finalized, s)
         else
           let s1 = s\<lparr>proposals := (proposals s)
                      (proposalId := proposal\<lparr>finalized := True\<rparr>)\<rparr>;
               emit = (\<lambda>s'. s'\<lparr>events := events s' @ [ProposalFinalized proposalId]\<rparr>)
           in case strategy proposal of
                PUBLIC_AFTER_END \<Rightarrow>
                  and_then (for_loop 0 (unat (optionCount proposal))
                              (\<lambda>i. with_optionVote proposalId i
                                 (\<lambda>c. FHE_makePubliclyDecryptable (Ct32 c))) s1)
                    (\<lambda>_ s2.
                       and_then (FHE_makePubliclyDecryptable
                                   (Ct32 (totalVotes (proposalResults s2 proposalId))) s2)
                         (\<lambda>_ s3. (Inr (), emit s3)))
              | OWNER_ONLY \<Rightarrow>
                  and_then (for_loop 0 (unat (optionCount proposal))
                              (\<lambda>i. with_optionVote proposalId i
                                 (\<lambda>c. FHE_allow (Ct32 c) (SecretVoting.owner s1))) s1)
                    (\<lambda>_ s2.
                       and_then (FHE_allow (Ct32 (totalVotes (proposalResults s2 proposalId)))
                                   (SecretVoting.owner s2) s2)
                         (\<lambda>_ s3. (Inr (), emit s3)))
              | QUALIFIED_ONLY \<Rightarrow> (Inr (), emit s1))"

section \<open>Views, grants and role management\<close>

text \<open>The getter Solidity generates for the public mapping \<open>proposals\<close>: it returns the
  stored record, which for a key never written is the all-zero record.\<close>

definition proposals_getter :: "uint256 \<Rightarrow> SecretVoting \<Rightarrow> (error + Proposal) \<times> SecretVoting" where
  "proposals_getter proposalId s = (Inr (proposals s proposalId), s)"

definition getOptionVotes ::
  "uint256 \<Rightarrow> uint8 \<Rightarrow> SecretVoting \<Rightarrow> (error + euint32) \<times> SecretVoting" where
  "getOptionVotes proposalId optionIndex s =
     (if \<not> optionIndex < optionCount (proposals s proposalId) then (Inl Invalid_option, s)
      else if unat optionIndex < length (optionVotes (proposalResults s proposalId))
      then (Inr (optionVotes (proposalResults s proposalId) ! unat optionIndex), s)
      else (Inl Array_out_of_bounds, s))"

definition getTotalVotes :: "uint256 \<Rightarrow> SecretVoting \<Rightarrow> (error + euint32) \<times> SecretVoting" where
  "getTotalVotes proposalId s = (Inr (totalVotes (proposalResults s proposalId)), s)"

definition getHasVoted ::
  "uint256 \<Rightarrow> address \<Rightarrow> SecretVoting \<Rightarrow> (error + ebool) \<times> SecretVoting" where
  "getHasVoted proposalId voter s = (Inr (hasVoted s proposalId voter), s)"

definition grantDecryptionPermission ::
  "uint256 \<Rightarrow> address \<Rightarrow> address \<Rightarrow> SecretVoting \<Rightarrow> (error + unit) \<times> SecretVoting" where
  "grantDecryptionPermission proposalId account msg_sender s =
     (let proposal = proposals s proposalId
      in if \<not> (msg_sender = Proposal.owner proposal \<or> msg_sender = SecretVoting.owner s
                 \<or> administrators s msg_sender)
         then (Inl Not_authorized, s)
         else and_then (for_loop 0 (unat (optionCount proposal))
                          (\<lambda>i. with_optionVote proposalId i (\<lambda>c. FHE_allow (Ct32 c) account)) s)
                (\<lambda>_ s1. FHE_allow (Ct32 (totalVotes (proposalResults s1 proposalId))) account s1))"

definition setProposer ::
  "address \<Rightarrow> bool \<Rightarrow> address \<Rightarrow> SecretVoting \<Rightarrow> (error + unit) \<times> SecretVoting" where
  "setProposer account status msg_sender s =
     (if \<not> onlyAdministrator msg_sender s then (Inl Not_administrator, s)
      else (Inr (), s\<lparr>proposers := (proposers s)(account := status)\<rparr>))"

definition setAdministrator ::
  "address \<Rightarrow> bool \<Rightarrow> address \<Rightarrow> SecretVoting \<Rightarrow> (error + unit) \<times> SecretVoting" where
  "setAdministrator account status msg_sender s =
     (if \<not> onlyOwner msg_sender s then (Inl Not_owner, s)
      else (Inr (), s\<lparr>administrators := (administrators s)(account := status)\<rparr>))"

definition setDefaultVotingDuration ::
  "uint256 \<Rightarrow> address \<Rightarrow> SecretVoting \<Rightarrow> (error + unit) \<times> SecretVoting" where
  "setDefaultVotingDuration duration msg_sender s =
     (if \<not> onlyOwner msg_sender s then (Inl Not_owner, s)
      else if \<not> (0 < duration \<and> duration \<le> 365 * days) then (Inl Invalid_duration, s)
      else (Inr (), s\<lparr>defaultVotingDuration := duration\<rparr>))"

section \<open>Transactions and reachable states\<close>

text \<open>
  A transaction runs one external function to completion. A revert restores the state the
  call started from; block timestamps never decrease along the chain.
\<close>

datatype call =
    CreateProposal string string uint8 uint256 ResultDisclosureStrategy uint256
  | Vote uint256 externalEuint8 bytes
  | FinalizeProposal uint256
  | GrantDecryptionPermission uint256 address
  | SetProposer address bool
  | SetAdministrator address bool
  | SetDefaultVotingDuration uint256

definition commit :: "(error + 'a) \<times> SecretVoting \<Rightarrow> SecretVoting \<Rightarrow> SecretVoting" where
  "commit r s = (case r of (Inl _, _) \<Rightarrow> s | (Inr _, s') \<Rightarrow> s')"

fun transact :: "address \<Rightarrow> uint256 \<Rightarrow> call \<Rightarrow> SecretVoting \<Rightarrow> SecretVoting" where
  "transact msg_sender block_timestamp (CreateProposal t d n duration st q) s =
     commit (createProposal t d n duration st q msg_sender block_timestamp s) s"
| "transact msg_sender block_timestamp (Vote proposalId encryptedOption inputProof) s =
     commit (vote proposalId encryptedOption inputProof msg_sender block_timestamp s) s"
| "transact msg_sender block_timestamp (FinalizeProposal proposalId) s =
     commit (finalizeProposal proposalId msg_sender block_timestamp s) s"
| "transact msg_sender block_timestamp (GrantDecryptionPermission proposalId account) s =
     commit (grantDecryptionPermission proposalId account msg_sender s) s"
| "transact msg_sender block_timestamp (SetProposer account status) s =
     commit (setProposer account status msg_sender s) s"
| "transact msg_sender block_timestamp (SetAdministrator account status) s =
     commit (setAdministrator account status msg_sender s) s"
| "transact msg_sender block_timestamp (SetDefaultVotingDuration duration) s =
     commit (setDefaultVotingDuration duration msg_sender s) s"

text \<open>
  \<open>reachable admissible t s\<close>: the state \<open>s\<close> results from deploying the contract and
  running transactions that all satisfy \<open>admissible\<close>, the latest at block timestamp
  \<open>t\<close>.
\<close>

inductive reachable ::
  "(SecretVoting \<Rightarrow> call \<Rightarrow> bool) \<Rightarrow> uint256 \<Rightarrow> SecretVoting \<Rightarrow> bool"
  for admissible :: "SecretVoting \<Rightarrow> call \<Rightarrow> bool" where
  deployed: "reachable admissible t (constructor deployer)"
| transacted:
    "reachable admissible t s \<Longrightarrow> t \<le> t' \<Longrightarrow> admissible s c
      \<Longrightarrow> reachable admissible t' (transact msg_sender t' c s)"

definition any_call :: "SecretVoting \<Rightarrow> call \<Rightarrow> bool" where
  "any_call s c = True"

text \<open>
  \<open>reachable_since t0 admissible t s\<close>: the same, for a contract deployed at block
  timestamp \<open>t0\<close>. A real block timestamp is positive.
\<close>

inductive reachable_since ::
  "uint256 \<Rightarrow> (SecretVoting \<Rightarrow> call \<Rightarrow> bool) \<Rightarrow> uint256 \<Rightarrow> SecretVoting \<Rightarrow> bool"
  for t0 :: uint256 and admissible :: "SecretVoting \<Rightarrow> call \<Rightarrow> bool" where
  deployed_at: "reachable_since t0 admissible t0 (constructor deployer)"
| transacted_since:
    "reachable_since t0 admissible t s \<Longrightarrow> t \<le> t' \<Longrightarrow> admissible s c
      \<Longrightarrow> reachable_since t0 admissible t' (transact msg_sender t' c s)"

section \<open>Closed forms of the successful calls\<close>

text \<open>
  What the tally loop computes on the counter array between indices \<open>i\<close> and \<open>n\<close>:
  counter \<open>j\<close> gains one exactly when the choice equals \<open>j\<close>.
\<close>

definition tallied :: "uint8 \<Rightarrow> nat \<Rightarrow> nat \<Rightarrow> euint32 list \<Rightarrow> euint32 list" where
  "tallied choice i n xs =
     map (\<lambda>j. if i \<le> j \<and> j < n
              then Euint32 (decrypt32 (xs ! j) + (if choice = of_nat j then 1 else 0))
              else xs ! j) [0..<length xs]"

definition vote_permission_calls ::
  "Proposal \<Rightarrow> address \<Rightarrow> euint32 list \<Rightarrow> euint32 \<Rightarrow> acl_call list" where
  "vote_permission_calls proposal msg_sender counters tot =
     (case strategy proposal of
        PUBLIC_AFTER_END \<Rightarrow> []
      | OWNER_ONLY \<Rightarrow>
          map (\<lambda>c. Allow (Ct32 c) (Proposal.owner proposal)) counters
            @ [Allow (Ct32 tot) (Proposal.owner proposal)]
      | QUALIFIED_ONLY \<Rightarrow>
          map (\<lambda>c. AllowTransient (Ct32 c) msg_sender) counters
            @ [AllowTransient (Ct32 tot) msg_sender])"

definition after_vote :: "uint256 \<Rightarrow> uint8 \<Rightarrow> address \<Rightarrow> SecretVoting \<Rightarrow> SecretVoting" where
  "after_vote proposalId choice msg_sender s =
     (let proposal = proposals s proposalId;
          results = proposalResults s proposalId;
          counters = tallied choice 0 (unat (optionCount proposal)) (optionVotes results);
          tot = Euint32 (decrypt32 (totalVotes results) + 1)
      in s\<lparr>proposalResults := (proposalResults s)
              (proposalId := results\<lparr>optionVotes := counters, totalVotes := tot\<rparr>),
            hasVoted := (hasVoted s)
              (proposalId := (hasVoted s proposalId)(msg_sender := Ebool True)),
            hasVotedClear := (hasVotedClear s)
              (proposalId := (hasVotedClear s proposalId)(msg_sender := True)),
            fheOps := fheOps s + (6 * unat (optionCount proposal) + 4
                        + (if totalVotes results = Null32 then 1 else 0)),
            aclCalls := aclCalls s @ [AllowTransient (Ct8 (Euint8 choice)) msg_sender]
              @ map (\<lambda>c. AllowThis (Ct32 c)) counters
              @ [AllowThis (Ct32 tot), Allow (CtBool (Ebool True)) msg_sender]
              @ vote_permission_calls proposal msg_sender counters tot,
            events := events s @ [VoteCast proposalId msg_sender]\<rparr>)"

definition after_createProposal ::
  "string \<Rightarrow> string \<Rightarrow> uint8 \<Rightarrow> uint256 \<Rightarrow> ResultDisclosureStrategy \<Rightarrow> uint256
    \<Rightarrow> address \<Rightarrow> uint256 \<Rightarrow> SecretVoting \<Rightarrow> SecretVoting" where
  "after_createProposal title' description' optionCount' duration strategy' minQuorum'
       msg_sender block_timestamp s =
     s\<lparr>proposals := (proposals s)(proposalCount s :=
          \<lparr>title = title', description = description', startTime = block_timestamp,
           endTime = block_timestamp + duration, optionCount = optionCount',
           finalized = False, Proposal.owner = msg_sender, strategy = strategy',
           minQuorum = minQuorum'\<rparr>),
       proposalResults := (proposalResults s)(proposalCount s :=
          \<lparr>optionVotes = replicate (unat optionCount') (Euint32 0), totalVotes = Euint32 0\<rparr>),
       proposalCount := proposalCount s + 1,
       fheOps := fheOps s + (unat optionCount' + 1),
       aclCalls := aclCalls s
          @ replicate (unat optionCount' + 1) (AllowThis (Ct32 (Euint32 0))),
       events := events s @
          [ProposalCreated (proposalCount s) msg_sender title' optionCount' block_timestamp
             (block_timestamp + duration)]\<rparr>"

definition finalize_permission_calls ::
  "Proposal \<Rightarrow> address \<Rightarrow> euint32 list \<Rightarrow> euint32 \<Rightarrow> acl_call list" where
  "finalize_permission_calls proposal contract_owner counters tot =
     (case strategy proposal of
        PUBLIC_AFTER_END \<Rightarrow>
          map (\<lambda>c. MakePubliclyDecryptable (Ct32 c)) counters
            @ [MakePubliclyDecryptable (Ct32 tot)]
      | OWNER_ONLY \<Rightarrow>
          map (\<lambda>c. Allow (Ct32 c) contract_owner) counters @ [Allow (Ct32 tot) contract_owner]
      | QUALIFIED_ONLY \<Rightarrow> [])"

definition after_finalizeProposal :: "uint256 \<Rightarrow> SecretVoting \<Rightarrow> SecretVoting" where
  "after_finalizeProposal proposalId s =
     s\<lparr>proposals := (proposals s)
          (proposalId := (proposals s proposalId)\<lparr>finalized := True\<rparr>),
       aclCalls := aclCalls s @
          finalize_permission_calls (proposals s proposalId) (SecretVoting.owner s)
            (optionVotes (proposalResults s proposalId))
            (totalVotes (proposalResults s proposalId)),
       events := events s @ [ProposalFinalized proposalId]\<rparr>"

definition after_grantDecryptionPermission ::
  "uint256 \<Rightarrow> address \<Rightarrow> SecretVoting \<Rightarrow> SecretVoting" where
  "after_grantDecryptionPermission proposalId account s =
     s\<lparr>aclCalls := aclCalls s @
          map (\<lambda>c. Allow (Ct32 c) account) (optionVotes (proposalResults s proposalId))
            @ [Allow (Ct32 (totalVotes (proposalResults s proposalId))) account]\<rparr>"

section \<open>Invariants of the reachable states\<close>

text \<open>
  In every reachable state each counter array has exactly \<open>optionCount\<close> elements, none
  of them the null handle; no proposal ends before it starts; the total of a created
  proposal is not the null handle; and an id that was never created still holds the
  all-zero record, except that \<open>finalized\<close> may have been set on it.
\<close>

definition invariant :: "SecretVoting \<Rightarrow> bool" where
  "invariant s \<longleftrightarrow>
     (\<forall>proposalId.
        length (optionVotes (proposalResults s proposalId))
          = unat (optionCount (proposals s proposalId))
        \<and> Null32 \<notin> set (optionVotes (proposalResults s proposalId))
        \<and> startTime (proposals s proposalId) \<le> endTime (proposals s proposalId)
        \<and> (proposalId < proposalCount s \<longrightarrow>
             totalVotes (proposalResults s proposalId) \<noteq> Null32)
        \<and> (proposalCount s \<le> proposalId \<longrightarrow>
             proposals s proposalId
               = zero_Proposal\<lparr>finalized := finalized (proposals s proposalId)\<rparr>))"

text \<open>Traces in which every vote on the created proposal \<open>p\<close> carries a choice below
  the \<open>optionCount\<close> of \<open>p\<close>. Votes on other proposals are not restricted.\<close>

definition in_range_votes_on :: "uint256 \<Rightarrow> SecretVoting \<Rightarrow> call \<Rightarrow> bool" where
  "in_range_votes_on p s c =
     (case c of
        Vote proposalId encryptedOption inputProof \<Rightarrow>
          proposalId = p \<and> p < proposalCount s
            \<longrightarrow> ext_plain encryptedOption < optionCount (proposals s p)
      | _ \<Rightarrow> True)"

section \<open>Error classes and example runs\<close>

text \<open>The three creation-time revert reasons that the specification groups under
  \<open>InvalidParameters\<close>.\<close>

definition InvalidParameters :: "error set" where
  "InvalidParameters = {Invalid_option_count, Invalid_duration, Invalid_quorum}"

text \<open>
  Example runs. Account 1 deploys the contract; account 2, which holds no role, creates a
  three-option proposal at time 10 that runs for 100 seconds; account 7 votes at time 20.
\<close>

definition scenario_created :: "ResultDisclosureStrategy \<Rightarrow> SecretVoting" where
  "scenario_created st =
     transact 2 10 (CreateProposal ''t'' ''d'' 3 100 st 1) (constructor 1)"

definition scenario_voted :: "ResultDisclosureStrategy \<Rightarrow> uint8 \<Rightarrow> SecretVoting" where
  "scenario_voted st choice =
     transact 7 20 (Vote 0 (ExternalEuint8 choice []) []) (scenario_created st)"

text \<open>
  A second proposal, with two options, is created by account 3 at time 12; account 8 votes
  the out-of-range choice 5 on it at time 15; then account 7 votes choice 1 on proposal 0.
\<close>

definition scenario_second :: SecretVoting where
  "scenario_second =
     transact 3 12 (CreateProposal ''u'' ''e'' 2 100 PUBLIC_AFTER_END 1)
       (scenario_created PUBLIC_AFTER_END)"

definition scenario_stray :: SecretVoting where
  "scenario_stray = transact 8 15 (Vote 1 (ExternalEuint8 5 []) []) scenario_second"

definition scenario_stray_voted :: SecretVoting where
  "scenario_stray_voted = transact 7 20 (Vote 0 (ExternalEuint8 1 []) []) scenario_stray"

definition scenario_finalized :: "ResultDisclosureStrategy \<Rightarrow> SecretVoting" where
  "scenario_finalized st = transact 9 200 (FinalizeProposal 0) (scenario_created st)"

section \<open>The frontend's voting callback\<close>

text \<open>
  The \<open>vote\<close> callback of the hook \<open>useSecretVoting\<close> checks its loaded copy of the
  proposals against the local clock before it encrypts the option index and sends the
  transaction. A loaded proposal is the contract's record together with its id; the option
  index is a natural number. \<open>ready\<close> stands for the presence of signer, FHE instance,
  contract address and account; \<open>inputProof\<close> is the proof the encryption produces. The
  result is the contract call that is sent.
\<close>

record LoadedProposal = Proposal +
  proposal_id :: nat

datatype hook_error =
    Missing_required_dependencies
  | Proposal_not_found
  | Voting_has_not_started_yet
  | Voting_has_ended
  | Proposal_has_been_finalized
  | Invalid_option_index

definition useSecretVoting_vote ::
  "bool \<Rightarrow> LoadedProposal list \<Rightarrow> nat \<Rightarrow> bytes \<Rightarrow> nat \<Rightarrow> nat \<Rightarrow> hook_error + call" where
  "useSecretVoting_vote ready loaded now inputProof proposalId optionIndex =
     (if \<not> ready then Inl Missing_required_dependencies
      else case find (\<lambda>p. proposal_id p = proposalId) loaded of
             None \<Rightarrow> Inl Proposal_not_found
           | Some proposal \<Rightarrow>
               if now < startTime proposal then Inl Voting_has_not_started_yet
               else if now > endTime proposal then Inl Voting_has_ended
               else if finalized proposal then Inl Proposal_has_been_finalized
               else if optionIndex \<ge> unat (optionCount proposal) then Inl Invalid_option_index
               else Inr (Vote proposalId
                           (ExternalEuint8 (of_nat optionIndex) inputProof) inputProof))"

section \<open>Sequencing and permission calls\<close>

lemma and_then_Inl [simp]: "and_then (Inl e, s) k = (Inl e, s)"
  by (simp add: and_then_def)

lemma and_then_Inr [simp]: "and_then (Inr x, s) k = k x s"
  by (simp add: and_then_def)

lemma isInitialized_Ct32 [simp]: "isInitialized (Ct32 c) \<longleftrightarrow> c \<noteq> Null32"
  by (cases c) simp_all

lemma isInitialized_CtBool [simp]: "isInitialized (CtBool b) \<longleftrightarrow> b \<noteq> NullBool"
  by (cases b) simp_all

lemmas FHE_permission_defs =
  FHE_allowThis_def FHE_allow_def FHE_allowTransient_def FHE_makePubliclyDecryptable_def
  acl_request_def

section \<open>Loop lemmas\<close>

lemma for_loop_step:
  "i < n \<Longrightarrow> for_loop i n body s =
     (case body i s of (Inl e, s') \<Rightarrow> (Inl e, s') | (Inr _, s') \<Rightarrow> for_loop (i + 1) n body s')"
  by (subst for_loop.simps) simp

lemma for_loop_done: "\<not> i < n \<Longrightarrow> for_loop i n body s = (Inr (), s)"
  by (subst for_loop.simps) simp

lemma drop_take_Cons:
  "i < n \<Longrightarrow> i < length xs \<Longrightarrow> drop i (take n xs) = xs ! i # drop (Suc i) (take n xs)"
  using Cons_nth_drop_Suc [of i "take n xs"] by simp

lemma permission_loop:
  assumes f: "\<And>c s. c \<noteq> Null32 \<Longrightarrow> f c s = (Inr (), s\<lparr>aclCalls := aclCalls s @ [g c]\<rparr>)"
  shows "n \<le> length (optionVotes (proposalResults s proposalId)) \<Longrightarrow>
    Null32 \<notin> set (optionVotes (proposalResults s proposalId)) \<Longrightarrow>
    for_loop i n (\<lambda>i. with_optionVote proposalId i f) s =
      (Inr (), s\<lparr>aclCalls := aclCalls s @
          map g (drop i (take n (optionVotes (proposalResults s proposalId))))\<rparr>)"
proof (induction "n - i" arbitrary: i s)
  case 0
  then show ?case by (simp add: for_loop_done)
next
  case (Suc k)
  let ?xs = "optionVotes (proposalResults s proposalId)"
  from Suc.hyps(2) have lt: "i < n" by simp
  with Suc.prems have il: "i < length ?xs" by simp
  have k: "k = n - (i + 1)" using Suc.hyps(2) by simp
  have d: "drop i (take n ?xs) = ?xs ! i # drop (i + 1) (take n ?xs)"
    using lt il by (simp add: drop_take_Cons)
  have nn: "?xs ! i \<noteq> Null32"
    using il Suc.prems(2) by (metis nth_mem)
  show ?case
    using Suc.hyps(1) [OF k, of "s\<lparr>aclCalls := aclCalls s @ [g (?xs ! i)]\<rparr>"] Suc.prems lt il
    by (simp add: for_loop_step [OF lt] with_optionVote_def f [OF nn] d)
qed


lemma createProposal_loop:
  "length (optionVotes (proposalResults s proposalId)) = i \<Longrightarrow> i \<le> n \<Longrightarrow>
    for_loop i n (createProposal_step proposalId) s =
      (Inr (), s\<lparr>proposalResults := (proposalResults s)(proposalId :=
                  (proposalResults s proposalId)\<lparr>optionVotes :=
                     optionVotes (proposalResults s proposalId) @ replicate (n - i) (Euint32 0)\<rparr>),
                fheOps := fheOps s + (n - i),
                aclCalls := aclCalls s @ replicate (n - i) (AllowThis (Ct32 (Euint32 0)))\<rparr>)"
proof (induction "n - i" arbitrary: i s)
  case 0
  then show ?case by (simp add: for_loop_done)
next
  case (Suc k)
  from Suc.hyps(2) have lt: "i < n" by simp
  have k: "k = n - (i + 1)" using Suc.hyps(2) by simp
  have nk: "n - i = Suc k" using Suc.hyps(2) by simp
  have k': "n - Suc i = k" using Suc.hyps(2) by simp
  define s' where "s' = snd (createProposal_step proposalId i s)"
  have body: "createProposal_step proposalId i s = (Inr (), s')"
    using Suc.prems(1)
    by (simp add: s'_def createProposal_step_def FHE_asEuint32_def with_optionVote_def Let_def
        FHE_permission_defs nth_append)
  have s': "s' = s\<lparr>proposalResults := (proposalResults s)(proposalId :=
                  (proposalResults s proposalId)\<lparr>optionVotes :=
                     optionVotes (proposalResults s proposalId) @ [Euint32 0]\<rparr>),
                fheOps := fheOps s + 1,
                aclCalls := aclCalls s @ [AllowThis (Ct32 (Euint32 0))]\<rparr>"
    using Suc.prems(1)
    by (simp add: s'_def createProposal_step_def FHE_asEuint32_def with_optionVote_def Let_def
        FHE_permission_defs nth_append)
  have len: "length (optionVotes (proposalResults s' proposalId)) = i + 1"
    using Suc.prems(1) by (simp add: s')
  have "for_loop i n (createProposal_step proposalId) s
          = for_loop (i + 1) n (createProposal_step proposalId) s'"
    by (simp add: for_loop_step [OF lt] body)
  also have "\<dots> = (Inr (), s'\<lparr>proposalResults := (proposalResults s')(proposalId :=
                  (proposalResults s' proposalId)\<lparr>optionVotes :=
                     optionVotes (proposalResults s' proposalId) @ replicate (n - (i + 1)) (Euint32 0)\<rparr>),
                fheOps := fheOps s' + (n - (i + 1)),
                aclCalls := aclCalls s' @ replicate (n - (i + 1)) (AllowThis (Ct32 (Euint32 0)))\<rparr>)"
    using Suc.hyps(1) [OF k len] lt by simp
  also have "\<dots> = (Inr (), s\<lparr>proposalResults := (proposalResults s)(proposalId :=
                  (proposalResults s proposalId)\<lparr>optionVotes :=
                     optionVotes (proposalResults s proposalId) @ replicate (n - i) (Euint32 0)\<rparr>),
                fheOps := fheOps s + (n - i),
                aclCalls := aclCalls s @ replicate (n - i) (AllowThis (Ct32 (Euint32 0)))\<rparr>)"
    using lt k' by (simp add: s' nk)
  finally show ?case .
qed

lemma length_tallied [simp]: "length (tallied choice i n xs) = length xs"
  by (simp add: tallied_def)

lemma tallied_nth:
  "j < length xs \<Longrightarrow> tallied choice i n xs ! j =
     (if i \<le> j \<and> j < n
      then Euint32 (decrypt32 (xs ! j) + (if choice = of_nat j then 1 else 0)) else xs ! j)"
  by (simp add: tallied_def)

lemma tallied_empty: "n \<le> i \<Longrightarrow> tallied choice i n xs = xs"
  by (rule nth_equalityI) (auto simp: tallied_nth)

lemma tallied_step:
  "i < length xs \<Longrightarrow>
     tallied choice (i + 1) n
       (xs[i := Euint32 (decrypt32 (xs ! i) + (if choice = of_nat i then 1 else 0))]) =
     tallied choice i n xs" if "i < n"
  using that by (intro nth_equalityI) (auto simp: tallied_nth nth_list_update)

lemma vote_step_eq:
  "i < length (optionVotes (proposalResults s proposalId)) \<Longrightarrow>
   optionVotes (proposalResults s proposalId) ! i \<noteq> Null32 \<Longrightarrow>
   vote_step proposalId (Euint8 choice) i s =
     (Inr (), s\<lparr>proposalResults := (proposalResults s)(proposalId :=
                  (proposalResults s proposalId)\<lparr>optionVotes :=
                     (optionVotes (proposalResults s proposalId))
                       [i := Euint32 (decrypt32 (optionVotes (proposalResults s proposalId) ! i)
                                + (if choice = of_nat i then 1 else 0))]\<rparr>),
                fheOps := fheOps s + 6,
                aclCalls := aclCalls s @
                  [AllowThis (Ct32 (Euint32 (decrypt32 (optionVotes (proposalResults s proposalId) ! i)
                                + (if choice = of_nat i then 1 else 0))))]\<rparr>)"
  by (simp add: vote_step_def FHE_asEuint8_def FHE_eq_def FHE_asEuint32_def FHE_select_def
      FHE_add_def with_optionVote_def FHE_permission_defs Let_def)


lemma vote_loop:
  "n \<le> length (optionVotes (proposalResults s proposalId)) \<Longrightarrow>
    Null32 \<notin> set (optionVotes (proposalResults s proposalId)) \<Longrightarrow>
    for_loop i n (vote_step proposalId (Euint8 choice)) s =
      (Inr (), s\<lparr>proposalResults := (proposalResults s)(proposalId :=
                  (proposalResults s proposalId)\<lparr>optionVotes :=
                     tallied choice i n (optionVotes (proposalResults s proposalId))\<rparr>),
                fheOps := fheOps s + 6 * (n - i),
                aclCalls := aclCalls s @
                  map (\<lambda>j. AllowThis (Ct32
                         (tallied choice i n (optionVotes (proposalResults s proposalId)) ! j)))
                    [i..<n]\<rparr>)"
proof (induction "n - i" arbitrary: i s)
  case 0
  then show ?case by (simp add: for_loop_done tallied_empty)
next
  case (Suc k)
  let ?xs = "optionVotes (proposalResults s proposalId)"
  let ?v = "Euint32 (decrypt32 (?xs ! i) + (if choice = of_nat i then 1 else 0))"
  from Suc.hyps(2) have lt: "i < n" by simp
  with Suc.prems have il: "i < length ?xs" by simp
  have k: "k = n - (i + 1)" using Suc.hyps(2) by simp
  have nk: "n - i = Suc k" using Suc.hyps(2) by simp
  have k': "n - Suc i = k" using Suc.hyps(2) by simp
  define s' where "s' = s\<lparr>proposalResults := (proposalResults s)(proposalId :=
                  (proposalResults s proposalId)\<lparr>optionVotes := ?xs[i := ?v]\<rparr>),
                fheOps := fheOps s + 6,
                aclCalls := aclCalls s @ [AllowThis (Ct32 ?v)]\<rparr>"
  have nn: "?xs ! i \<noteq> Null32"
    using il Suc.prems(2) by (metis nth_mem)
  have body: "vote_step proposalId (Euint8 choice) i s = (Inr (), s')"
    unfolding s'_def by (rule vote_step_eq [OF il nn])
  have xs': "optionVotes (proposalResults s' proposalId) = ?xs[i := ?v]"
    by (simp add: s'_def)
  have len: "n \<le> length (optionVotes (proposalResults s' proposalId))"
    using Suc.prems by (simp add: xs')
  have nn': "Null32 \<notin> set (optionVotes (proposalResults s' proposalId))"
    using Suc.prems(2) set_update_subset_insert [of ?xs i ?v] by (auto simp: xs')
  have t: "tallied choice (i + 1) n (?xs[i := ?v]) = tallied choice i n ?xs"
    by (rule tallied_step [OF lt il])
  have ti: "tallied choice i n ?xs ! i = ?v"
    using lt il by (simp add: tallied_nth)
  have upt: "[i..<n] = i # [i + 1..<n]"
    using lt by (simp add: upt_conv_Cons)
  have "for_loop i n (vote_step proposalId (Euint8 choice)) s
          = for_loop (i + 1) n (vote_step proposalId (Euint8 choice)) s'"
    by (simp add: for_loop_step [OF lt] body)
  also have "\<dots> = (Inr (), s'\<lparr>proposalResults := (proposalResults s')(proposalId :=
                  (proposalResults s' proposalId)\<lparr>optionVotes :=
                     tallied choice (i + 1) n (optionVotes (proposalResults s' proposalId))\<rparr>),
                fheOps := fheOps s' + 6 * (n - (i + 1)),
                aclCalls := aclCalls s' @
                  map (\<lambda>j. AllowThis (Ct32
                         (tallied choice (i + 1) n (optionVotes (proposalResults s' proposalId)) ! j)))
                    [i + 1..<n]\<rparr>)"
    by (rule Suc.hyps(1) [OF k len nn'])
  also have "\<dots> = (Inr (), s\<lparr>proposalResults := (proposalResults s)(proposalId :=
                  (proposalResults s proposalId)\<lparr>optionVotes := tallied choice i n ?xs\<rparr>),
                fheOps := fheOps s + 6 * (n - i),
                aclCalls := aclCalls s @
                  map (\<lambda>j. AllowThis (Ct32 (tallied choice i n ?xs ! j))) [i..<n]\<rparr>)"
    unfolding xs' t by (simp add: s'_def ti nk k' upt_conv_Cons [OF lt])
  finally show ?case .
qed

section \<open>The successful calls in closed form\<close>

lemma tallied_full_map:
  "length xs = n \<Longrightarrow> map (\<lambda>j. f (tallied choice 0 n xs ! j)) [0..<n] = map f (tallied choice 0 n xs)"
  by (intro nth_equalityI) auto

lemma vote_permissions_eq:
  "length (optionVotes (proposalResults s proposalId)) = unat (optionCount (proposals s proposalId)) \<Longrightarrow>
   Null32 \<notin> set (optionVotes (proposalResults s proposalId)) \<Longrightarrow>
   totalVotes (proposalResults s proposalId) \<noteq> Null32 \<Longrightarrow>
   vote_permissions proposalId msg_sender s =
     (Inr (), s\<lparr>aclCalls := aclCalls s @
        vote_permission_calls (proposals s proposalId) msg_sender
          (optionVotes (proposalResults s proposalId)) (totalVotes (proposalResults s proposalId))\<rparr>)"
  by (cases "strategy (proposals s proposalId)")
     (simp_all add: vote_permissions_def vote_permission_calls_def Let_def
        permission_loop [where g = "\<lambda>c. Allow (Ct32 c) a" for a]
        permission_loop [where g = "\<lambda>c. AllowTransient (Ct32 c) a" for a]
        FHE_permission_defs)

lemma tallied_not_null:
  assumes "Null32 \<notin> set xs"
  shows "Null32 \<notin> set (tallied choice i n xs)"
proof
  assume "Null32 \<in> set (tallied choice i n xs)"
  then obtain j where j: "j < length xs" and "tallied choice i n xs ! j = Null32"
    by (auto simp: in_set_conv_nth)
  then have "xs ! j = Null32"
    by (simp add: tallied_nth split: if_splits)
  with j assms show False by (metis nth_mem)
qed

lemma vote_effects_eq:
  assumes "length (optionVotes (proposalResults s proposalId)) = unat (optionCount (proposals s proposalId))"
    and "Null32 \<notin> set (optionVotes (proposalResults s proposalId))"
  shows "vote_effects proposalId (Euint8 choice) msg_sender
           (s\<lparr>fheOps := Suc (fheOps s),
              aclCalls := aclCalls s @ [AllowTransient (Ct8 (Euint8 choice)) msg_sender]\<rparr>) =
     (Inr (), after_vote proposalId choice msg_sender s)"
  using assms
  by (simp add: vote_effects_def Let_def vote_loop FHE_asEuint32_def FHE_add_def
      FHE_permission_defs FHE_asEbool_def vote_permissions_eq after_vote_def tallied_not_null
      tallied_full_map [where f = "\<lambda>c. AllowThis (Ct32 c)"])

lemma vote_success:
  assumes "startTime (proposals s proposalId) \<le> block_timestamp"
    and "block_timestamp \<le> endTime (proposals s proposalId)"
    and "\<not> finalized (proposals s proposalId)"
    and "\<not> hasVotedClear s proposalId msg_sender"
    and "inputProof = ext_attestation encryptedOption"
    and "length (optionVotes (proposalResults s proposalId)) = unat (optionCount (proposals s proposalId))"
    and "Null32 \<notin> set (optionVotes (proposalResults s proposalId))"
  shows "vote proposalId encryptedOption inputProof msg_sender block_timestamp s =
     (Inr (), after_vote proposalId (ext_plain encryptedOption) msg_sender s)"
  using assms by (simp add: vote_def FHE_fromExternal_def vote_effects_eq Let_def)


lemma ProposalResults_update_all:
  "(r :: ProposalResults)\<lparr>optionVotes := a, totalVotes := b\<rparr> = \<lparr>optionVotes = a, totalVotes = b\<rparr>"
  by (cases r) simp

lemma createProposal_success:
  assumes "2 \<le> optionCount'" and "optionCount' \<le> 10"
    and "0 < duration" and "duration \<le> 365 * days" and "0 < minQuorum'"
    and "optionVotes (proposalResults s (proposalCount s)) = []"
  shows "createProposal title' description' optionCount' duration strategy' minQuorum'
           msg_sender block_timestamp s =
     (Inr (proposalCount s),
      after_createProposal title' description' optionCount' duration strategy' minQuorum'
        msg_sender block_timestamp s)"
proof -
  have "snd (createProposal title' description' optionCount' duration strategy' minQuorum'
           msg_sender block_timestamp s) =
      after_createProposal title' description' optionCount' duration strategy' minQuorum'
        msg_sender block_timestamp s"
    using assms
    by (intro SecretVoting.equality)
       (simp_all add: createProposal_def Let_def createProposal_loop FHE_asEuint32_def
          FHE_permission_defs after_createProposal_def replicate_append_same
          ProposalResults_update_all)
  moreover have "fst (createProposal title' description' optionCount' duration strategy' minQuorum'
           msg_sender block_timestamp s) = Inr (proposalCount s)"
    using assms
    by (simp add: createProposal_def Let_def createProposal_loop FHE_asEuint32_def
        FHE_permission_defs)
  ultimately show ?thesis
    by (simp add: prod_eq_iff)
qed

lemma createProposal_failure:
  assumes "\<not> (2 \<le> optionCount' \<and> optionCount' \<le> 10 \<and> 0 < duration \<and> duration \<le> 365 * days
             \<and> 0 < minQuorum')"
  shows "\<exists>e. createProposal title' description' optionCount' duration strategy' minQuorum'
           msg_sender block_timestamp s = (Inl e, s)"
  using assms by (auto simp: createProposal_def)

lemma finalizeProposal_success:
  assumes "endTime (proposals s proposalId) < block_timestamp"
    and "\<not> finalized (proposals s proposalId)"
    and "length (optionVotes (proposalResults s proposalId)) = unat (optionCount (proposals s proposalId))"
    and "Null32 \<notin> set (optionVotes (proposalResults s proposalId))"
    and "totalVotes (proposalResults s proposalId) \<noteq> Null32
           \<or> strategy (proposals s proposalId) = QUALIFIED_ONLY"
  shows "finalizeProposal proposalId msg_sender block_timestamp s =
     (Inr (), after_finalizeProposal proposalId s)"
  using assms
  by (cases "strategy (proposals s proposalId)")
     (simp_all add: finalizeProposal_def Let_def after_finalizeProposal_def
        finalize_permission_calls_def FHE_permission_defs
        permission_loop [where g = "\<lambda>c. Allow (Ct32 c) a" for a]
        permission_loop [where g = "\<lambda>c. MakePubliclyDecryptable (Ct32 c)"])

lemma finalizeProposal_null_total:
  assumes "endTime (proposals s proposalId) < block_timestamp"
    and "\<not> finalized (proposals s proposalId)"
    and "length (optionVotes (proposalResults s proposalId)) = unat (optionCount (proposals s proposalId))"
    and "Null32 \<notin> set (optionVotes (proposalResults s proposalId))"
    and "totalVotes (proposalResults s proposalId) = Null32"
    and "strategy (proposals s proposalId) \<noteq> QUALIFIED_ONLY"
  shows "fst (finalizeProposal proposalId msg_sender block_timestamp s) = Inl Sender_not_allowed"
  using assms
  by (cases "strategy (proposals s proposalId)")
     (simp_all add: finalizeProposal_def Let_def FHE_permission_defs
        permission_loop [where g = "\<lambda>c. Allow (Ct32 c) a" for a]
        permission_loop [where g = "\<lambda>c. MakePubliclyDecryptable (Ct32 c)"])

lemma grantDecryptionPermission_success:
  assumes "msg_sender = Proposal.owner (proposals s proposalId) \<or> msg_sender = SecretVoting.owner s
             \<or> administrators s msg_sender"
    and "length (optionVotes (proposalResults s proposalId)) = unat (optionCount (proposals s proposalId))"
    and "Null32 \<notin> set (optionVotes (proposalResults s proposalId))"
    and "totalVotes (proposalResults s proposalId) \<noteq> Null32"
  shows "grantDecryptionPermission proposalId account msg_sender s =
     (Inr (), after_grantDecryptionPermission proposalId account s)"
  using assms
  by (simp add: grantDecryptionPermission_def Let_def after_grantDecryptionPermission_def
        FHE_permission_defs permission_loop [where g = "\<lambda>c. Allow (Ct32 c) a" for a])

lemma grantDecryptionPermission_null_total:
  assumes "length (optionVotes (proposalResults s proposalId)) = unat (optionCount (proposals s proposalId))"
    and "Null32 \<notin> set (optionVotes (proposalResults s proposalId))"
    and "totalVotes (proposalResults s proposalId) = Null32"
  shows "\<exists>e. fst (grantDecryptionPermission proposalId account msg_sender s) = Inl e"
  using assms
  by (simp add: grantDecryptionPermission_def Let_def FHE_permission_defs
        permission_loop [where g = "\<lambda>c. Allow (Ct32 c) a" for a])

section \<open>The invariant holds in every reachable state\<close>

lemma commit_Inl [simp]: "commit (Inl e, s') s = s"
  by (simp add: commit_def)

lemma commit_Inr [simp]: "commit (Inr x, s') s = s'"
  by (simp add: commit_def)

lemma invariant_length:
  "invariant s \<Longrightarrow> length (optionVotes (proposalResults s proposalId))
     = unat (optionCount (proposals s proposalId))"
  by (simp add: invariant_def)

lemma invariant_not_null:
  "invariant s \<Longrightarrow> Null32 \<notin> set (optionVotes (proposalResults s proposalId))"
  by (simp add: invariant_def)

lemma invariant_times:
  "invariant s \<Longrightarrow> startTime (proposals s proposalId) \<le> endTime (proposals s proposalId)"
  by (simp add: invariant_def)

lemma invariant_unknown:
  "invariant s \<Longrightarrow> proposalCount s \<le> proposalId \<Longrightarrow>
     proposals s proposalId = zero_Proposal\<lparr>finalized := finalized (proposals s proposalId)\<rparr>"
  by (simp add: invariant_def)

lemma invariant_unknown_fields:
  assumes "invariant s" and "proposalCount s \<le> proposalId"
  shows "optionCount (proposals s proposalId) = 0"
    and "endTime (proposals s proposalId) = 0"
    and "startTime (proposals s proposalId) = 0"
    and "strategy (proposals s proposalId) = PUBLIC_AFTER_END"
proof -
  have eq: "proposals s proposalId = zero_Proposal\<lparr>finalized := finalized (proposals s proposalId)\<rparr>"
    using assms by (rule invariant_unknown)
  show "optionCount (proposals s proposalId) = 0"
    by (subst eq) (simp add: zero_Proposal_def)
  show "endTime (proposals s proposalId) = 0"
    by (subst eq) (simp add: zero_Proposal_def)
  show "startTime (proposals s proposalId) = 0"
    by (subst eq) (simp add: zero_Proposal_def)
  show "strategy (proposals s proposalId) = PUBLIC_AFTER_END"
    by (subst eq) (simp add: zero_Proposal_def)
qed

lemma vote_cases:
  assumes inv: "invariant s"
  shows "(\<exists>e. vote proposalId encryptedOption inputProof msg_sender block_timestamp s = (Inl e, s))
       \<or> (startTime (proposals s proposalId) \<le> block_timestamp
          \<and> block_timestamp \<le> endTime (proposals s proposalId)
          \<and> \<not> finalized (proposals s proposalId)
          \<and> \<not> hasVotedClear s proposalId msg_sender
          \<and> vote proposalId encryptedOption inputProof msg_sender block_timestamp s =
            (Inr (), after_vote proposalId (ext_plain encryptedOption) msg_sender s))"
proof (cases "startTime (proposals s proposalId) \<le> block_timestamp
          \<and> block_timestamp \<le> endTime (proposals s proposalId)
          \<and> \<not> finalized (proposals s proposalId)
          \<and> \<not> hasVotedClear s proposalId msg_sender
          \<and> inputProof = ext_attestation encryptedOption")
  case True
  then show ?thesis
    using vote_success [OF _ _ _ _ _ invariant_length [OF inv] invariant_not_null [OF inv]]
    by blast
next
  case False
  then have "\<exists>e. vote proposalId encryptedOption inputProof msg_sender block_timestamp s = (Inl e, s)"
    by (auto simp: vote_def FHE_fromExternal_def Let_def)
  then show ?thesis by blast
qed

lemma finalizeProposal_cases:
  assumes inv: "invariant s"
  shows "(\<exists>e s'. finalizeProposal proposalId msg_sender block_timestamp s = (Inl e, s'))
       \<or> (endTime (proposals s proposalId) < block_timestamp
          \<and> \<not> finalized (proposals s proposalId)
          \<and> (totalVotes (proposalResults s proposalId) \<noteq> Null32
               \<or> strategy (proposals s proposalId) = QUALIFIED_ONLY)
          \<and> finalizeProposal proposalId msg_sender block_timestamp s =
            (Inr (), after_finalizeProposal proposalId s))"
proof (cases "endTime (proposals s proposalId) < block_timestamp \<and> \<not> finalized (proposals s proposalId)")
  case req: True
  show ?thesis
  proof (cases "totalVotes (proposalResults s proposalId) \<noteq> Null32
               \<or> strategy (proposals s proposalId) = QUALIFIED_ONLY")
    case True
    with req show ?thesis
      using finalizeProposal_success [OF _ _ invariant_length [OF inv] invariant_not_null [OF inv]]
      by blast
  next
    case False
    with req have "fst (finalizeProposal proposalId msg_sender block_timestamp s)
        = Inl Sender_not_allowed"
      using finalizeProposal_null_total [OF _ _ invariant_length [OF inv] invariant_not_null [OF inv]]
      by blast
    then have "\<exists>e s'. finalizeProposal proposalId msg_sender block_timestamp s = (Inl e, s')"
      by (metis prod.collapse)
    then show ?thesis by blast
  qed
next
  case False
  then have "\<exists>e. finalizeProposal proposalId msg_sender block_timestamp s = (Inl e, s)"
    by (auto simp: finalizeProposal_def Let_def)
  then show ?thesis by blast
qed

lemma grantDecryptionPermission_cases:
  assumes inv: "invariant s"
  shows "(\<exists>e s'. grantDecryptionPermission proposalId account msg_sender s = (Inl e, s'))
       \<or> grantDecryptionPermission proposalId account msg_sender s =
            (Inr (), after_grantDecryptionPermission proposalId account s)"
proof (cases "msg_sender = Proposal.owner (proposals s proposalId) \<or> msg_sender = SecretVoting.owner s
             \<or> administrators s msg_sender")
  case auth: True
  show ?thesis
  proof (cases "totalVotes (proposalResults s proposalId) = Null32")
    case True
    then have "\<exists>e. fst (grantDecryptionPermission proposalId account msg_sender s) = Inl e"
      by (rule grantDecryptionPermission_null_total
            [OF invariant_length [OF inv] invariant_not_null [OF inv]])
    then have "\<exists>e s'. grantDecryptionPermission proposalId account msg_sender s = (Inl e, s')"
      by (metis prod.collapse)
    then show ?thesis by blast
  next
    case False
    with auth show ?thesis
      using grantDecryptionPermission_success
        [OF _ invariant_length [OF inv] invariant_not_null [OF inv]]
      by blast
  qed
next
  case False
  then have "\<exists>e. grantDecryptionPermission proposalId account msg_sender s = (Inl e, s)"
    by (auto simp: grantDecryptionPermission_def Let_def)
  then show ?thesis by blast
qed

lemma createProposal_cases:
  assumes "optionVotes (proposalResults s (proposalCount s)) = []"
  shows "(\<exists>e. createProposal t d n duration st q msg_sender block_timestamp s = (Inl e, s))
       \<or> (2 \<le> n \<and> n \<le> 10 \<and> 0 < duration \<and> duration \<le> 365 * days \<and> 0 < q
          \<and> createProposal t d n duration st q msg_sender block_timestamp s =
            (Inr (proposalCount s), after_createProposal t d n duration st q msg_sender block_timestamp s))"
proof (cases "2 \<le> n \<and> n \<le> 10 \<and> 0 < duration \<and> duration \<le> 365 * days \<and> 0 < q")
  case True
  then show ?thesis using createProposal_success [OF _ _ _ _ _ assms] by blast
next
  case False
  then show ?thesis using createProposal_failure [of n duration q] by blast
qed

lemma invariant_fresh:
  "invariant s \<Longrightarrow> optionVotes (proposalResults s (proposalCount s)) = []"
  using invariant_length [of s "proposalCount s"] invariant_unknown_fields(1) [of s "proposalCount s"]
  by simp

lemma invariant_constructor: "invariant (constructor deployer)"
  by (simp add: invariant_def constructor_def zero_Proposal_def zero_ProposalResults_def)

lemma invariant_after_createProposal:
  "invariant s \<Longrightarrow> invariant (after_createProposal t d n duration st q msg_sender block_timestamp s)"
  by (simp add: invariant_def after_createProposal_def)

lemma invariant_after_vote:
  "invariant s \<Longrightarrow> invariant (after_vote proposalId choice msg_sender s)"
  by (simp add: invariant_def after_vote_def Let_def tallied_not_null)

lemma invariant_after_finalizeProposal:
  assumes inv: "invariant s"
  shows "invariant (after_finalizeProposal proposalId s)"
proof -
  have unknown: "(proposals s proposalId)\<lparr>finalized := True\<rparr> = zero_Proposal\<lparr>finalized := True\<rparr>"
    if "proposalCount s \<le> proposalId"
    by (subst invariant_unknown [OF inv that]) simp
  show ?thesis
    using inv unknown by (simp add: invariant_def after_finalizeProposal_def)
qed

lemma invariant_after_grantDecryptionPermission:
  "invariant s \<Longrightarrow> invariant (after_grantDecryptionPermission proposalId account s)"
  by (simp add: invariant_def after_grantDecryptionPermission_def)

lemma invariant_transact:
  assumes inv: "invariant s"
  shows "invariant (transact msg_sender block_timestamp c s)"
proof (cases c)
  case (CreateProposal t d n duration st q)
  show ?thesis
    using createProposal_cases [OF invariant_fresh [OF inv], of t d n duration st q msg_sender block_timestamp]
      inv invariant_after_createProposal [OF inv]
    by (auto simp: CreateProposal)
next
  case (Vote proposalId encryptedOption inputProof)
  show ?thesis
    using vote_cases [OF inv, of proposalId encryptedOption inputProof msg_sender block_timestamp]
      inv invariant_after_vote [OF inv]
    by (auto simp: Vote)
next
  case (FinalizeProposal proposalId)
  show ?thesis
    using finalizeProposal_cases [OF inv, of proposalId msg_sender block_timestamp]
      inv invariant_after_finalizeProposal [OF inv]
    by (auto simp: FinalizeProposal)
next
  case (GrantDecryptionPermission proposalId account)
  show ?thesis
    using grantDecryptionPermission_cases [OF inv, of proposalId account msg_sender]
      inv invariant_after_grantDecryptionPermission [OF inv]
    by (auto simp: GrantDecryptionPermission)
next
  case (SetProposer account status)
  show ?thesis using inv by (simp add: SetProposer setProposer_def invariant_def)
next
  case (SetAdministrator account status)
  show ?thesis using inv by (simp add: SetAdministrator setAdministrator_def invariant_def)
next
  case (SetDefaultVotingDuration duration)
  show ?thesis using inv by (simp add: SetDefaultVotingDuration setDefaultVotingDuration_def invariant_def)
qed

lemma reachable_invariant: "reachable admissible t s \<Longrightarrow> invariant s"
  by (induction rule: reachable.induct) (simp_all add: invariant_constructor invariant_transact)

lemma transact_finalized:
  assumes inv: "invariant s"
    and fin: "finalized (proposals (transact msg_sender t' c s) proposalId)"
  shows "(finalized (proposals s proposalId)
            \<and> endTime (proposals (transact msg_sender t' c s) proposalId)
                = endTime (proposals s proposalId))
         \<or> endTime (proposals (transact msg_sender t' c s) proposalId) < t'"
proof (cases c)
  case (CreateProposal t d n duration st q)
  show ?thesis
    using createProposal_cases [OF invariant_fresh [OF inv], of t d n duration st q msg_sender t'] fin
    by (auto simp: CreateProposal after_createProposal_def split: if_splits)
next
  case (Vote p encryptedOption inputProof)
  show ?thesis
    using vote_cases [OF inv, of p encryptedOption inputProof msg_sender t'] fin
    by (auto simp: Vote after_vote_def Let_def)
next
  case (FinalizeProposal p)
  show ?thesis
    using finalizeProposal_cases [OF inv, of p msg_sender t'] fin
    by (auto simp: FinalizeProposal after_finalizeProposal_def split: if_splits)
next
  case (GrantDecryptionPermission p account)
  show ?thesis
    using grantDecryptionPermission_cases [OF inv, of p account msg_sender] fin
    by (auto simp: GrantDecryptionPermission after_grantDecryptionPermission_def)
next
  case (SetProposer account status)
  show ?thesis using fin by (auto simp: SetProposer setProposer_def)
next
  case (SetAdministrator account status)
  show ?thesis using fin by (auto simp: SetAdministrator setAdministrator_def)
next
  case (SetDefaultVotingDuration duration)
  show ?thesis using fin by (auto simp: SetDefaultVotingDuration setDefaultVotingDuration_def)
qed

lemma reachable_finalized_ended:
  "reachable admissible t s \<Longrightarrow> finalized (proposals s proposalId)
     \<Longrightarrow> endTime (proposals s proposalId) < t"
proof (induction arbitrary: proposalId rule: reachable.induct)
  case (deployed t deployer)
  then show ?case by (simp add: constructor_def zero_Proposal_def)
next
  case (transacted t s t' c msg_sender)
  from transact_finalized [OF reachable_invariant [OF transacted.hyps(1)] transacted.prems]
  show ?case
  proof
    assume "finalized (proposals s proposalId)
            \<and> endTime (proposals (transact msg_sender t' c s) proposalId)
                = endTime (proposals s proposalId)"
    with transacted.IH [of proposalId] transacted.hyps(2) show ?thesis by simp
  qed simp
qed

section \<open>The tally over traces of in-range votes\<close>

lemma choice_eq_of_nat:
  "n < 256 \<Longrightarrow> ((choice :: uint8) = of_nat n) = (unat choice = n)"
proof -
  assume "n < 256"
  then have "unat (of_nat n :: uint8) = n"
    by (simp add: unat_of_nat take_bit_nat_eq_self)
  then show ?thesis
    by (auto simp: word_unat_eq_iff)
qed

lemma tallied_snoc:
  "tallied choice 0 (Suc (length xs)) (xs @ [x]) =
     tallied choice 0 (length xs) xs
       @ [Euint32 (decrypt32 x + (if choice = of_nat (length xs) then 1 else 0))]"
  by (rule nth_equalityI) (auto simp: tallied_nth nth_append less_Suc_eq)

lemma sum_tallied:
  "length xs \<le> 256 \<Longrightarrow>
     sum_list (map decrypt32 (tallied choice 0 (length xs) xs)) =
       sum_list (map decrypt32 xs) + (if unat choice < length xs then 1 else 0)"
proof (induction xs rule: rev_induct)
  case Nil
  then show ?case by (simp add: tallied_def)
next
  case (snoc x xs)
  then have n: "length xs < 256" by simp
  with snoc have IH: "sum_list (map decrypt32 (tallied choice 0 (length xs) xs)) =
       sum_list (map decrypt32 xs) + (if unat choice < length xs then 1 else 0)"
    by simp
  show ?case
    using IH by (auto simp: tallied_snoc choice_eq_of_nat [OF n] less_Suc_eq)
qed

lemma unat_sum_list:
  "unat (sum_list ws :: uint32) = sum_list (map unat ws) mod 2 ^ 32"
proof (induction ws)
  case Nil
  then show ?case by simp
next
  case (Cons w ws)
  then show ?case
    by (simp add: unat_word_ariths mod_add_right_eq)
qed

lemma tally_after_vote:
  assumes inv: "invariant s"
    and ok: "decrypt32 (totalVotes (proposalResults s proposalId))
           = sum_list (map decrypt32 (optionVotes (proposalResults s proposalId)))"
    and range: "choice < optionCount (proposals s proposalId)"
  shows "decrypt32 (totalVotes (proposalResults (after_vote proposalId choice msg_sender s) proposalId))
           = sum_list (map decrypt32
               (optionVotes (proposalResults (after_vote proposalId choice msg_sender s) proposalId)))"
proof -
  let ?xs = "optionVotes (proposalResults s proposalId)"
  have len: "unat (optionCount (proposals s proposalId)) = length ?xs"
    using invariant_length [OF inv, of proposalId] by simp
  have "length ?xs < 256"
    using unsigned_less [of "optionCount (proposals s proposalId)", where ?'a = nat]
    by (simp add: len)
  then have le: "length ?xs \<le> 256" by simp
  have lt: "unat choice < length ?xs"
    using range by (simp add: word_less_nat_alt len)
  show ?thesis
    using sum_tallied [OF le, of choice] lt ok
    by (simp add: after_vote_def Let_def len)
qed

lemma transact_tally:
  assumes inv: "invariant s"
    and adm: "in_range_votes_on p s c"
    and ok: "p < proposalCount s \<Longrightarrow>
       decrypt32 (totalVotes (proposalResults s p))
         = sum_list (map decrypt32 (optionVotes (proposalResults s p)))"
    and p: "p < proposalCount (transact msg_sender t' c s)"
  shows "decrypt32 (totalVotes (proposalResults (transact msg_sender t' c s) p))
         = sum_list (map decrypt32 (optionVotes (proposalResults (transact msg_sender t' c s) p)))"
proof (cases c)
  case (CreateProposal t d n duration st q)
  show ?thesis
    using createProposal_cases [OF invariant_fresh [OF inv], of t d n duration st q msg_sender t'] p ok
    by (auto simp: CreateProposal after_createProposal_def less_Suc_eq sum_list_replicate)
next
  case (Vote proposalId encryptedOption inputProof)
  from vote_cases [OF inv, of proposalId encryptedOption inputProof msg_sender t']
  show ?thesis
  proof
    assume "\<exists>e. vote proposalId encryptedOption inputProof msg_sender t' s = (Inl e, s)"
    then show ?thesis using p ok by (auto simp: Vote)
  next
    assume a: "startTime (proposals s proposalId) \<le> t'
          \<and> t' \<le> endTime (proposals s proposalId)
          \<and> \<not> finalized (proposals s proposalId)
          \<and> \<not> hasVotedClear s proposalId msg_sender
          \<and> vote proposalId encryptedOption inputProof msg_sender t' s =
            (Inr (), after_vote proposalId (ext_plain encryptedOption) msg_sender s)"
    then have eq: "transact msg_sender t' c s
        = after_vote proposalId (ext_plain encryptedOption) msg_sender s"
      by (simp add: Vote)
    have cnt: "proposalCount (after_vote proposalId (ext_plain encryptedOption) msg_sender s)
        = proposalCount s"
      by (simp add: after_vote_def Let_def)
    from p have created: "p < proposalCount s" by (simp add: eq cnt)
    show ?thesis
    proof (cases "proposalId = p")
      case True
      with adm created have "ext_plain encryptedOption < optionCount (proposals s p)"
        by (simp add: in_range_votes_on_def Vote)
      from tally_after_vote [OF inv ok [OF created] this]
      show ?thesis by (simp add: eq True)
    next
      case False
      have "proposalResults (after_vote proposalId (ext_plain encryptedOption) msg_sender s) p
          = proposalResults s p"
        using False by (simp add: after_vote_def Let_def)
      then show ?thesis using ok [OF created] by (simp add: eq)
    qed
  qed
next
  case (FinalizeProposal proposalId)
  show ?thesis
    using finalizeProposal_cases [OF inv, of proposalId msg_sender t'] p ok
    by (auto simp: FinalizeProposal after_finalizeProposal_def)
next
  case (GrantDecryptionPermission proposalId account)
  show ?thesis
    using grantDecryptionPermission_cases [OF inv, of proposalId account msg_sender] p ok
    by (auto simp: GrantDecryptionPermission after_grantDecryptionPermission_def)
next
  case (SetProposer account status)
  show ?thesis using p ok by (auto simp: SetProposer setProposer_def)
next
  case (SetAdministrator account status)
  show ?thesis using p ok by (auto simp: SetAdministrator setAdministrator_def)
next
  case (SetDefaultVotingDuration duration)
  show ?thesis using p ok by (auto simp: SetDefaultVotingDuration setDefaultVotingDuration_def)
qed

lemma reachable_tally:
  "reachable (in_range_votes_on p) t s \<Longrightarrow> p < proposalCount s \<Longrightarrow>
     decrypt32 (totalVotes (proposalResults s p))
       = sum_list (map decrypt32 (optionVotes (proposalResults s p)))"
proof (induction rule: reachable.induct)
  case (deployed t deployer)
  then show ?case by (simp add: constructor_def)
next
  case (transacted t s t' c msg_sender)
  show ?case
    by (rule transact_tally [OF reachable_invariant [OF transacted.hyps(1)] transacted.hyps(3)
          transacted.IH transacted.prems])
qed

section \<open>Votes out of range and repeated votes\<close>

lemma tallied_out_of_range:
  assumes "n \<le> unat choice"
  shows "map decrypt32 (tallied choice 0 n xs) = map decrypt32 xs"
proof (rule nth_equalityI)
  show "length (map decrypt32 (tallied choice 0 n xs)) = length (map decrypt32 xs)" by simp
next
  fix j assume "j < length (map decrypt32 (tallied choice 0 n xs))"
  then have j: "j < length xs" by simp
  show "map decrypt32 (tallied choice 0 n xs) ! j = map decrypt32 xs ! j"
  proof (cases "j < n")
    case True
    have "unat choice < 256"
      using unsigned_less [of choice, where ?'a = nat] by simp
    with True assms have "j < 256" and "unat choice \<noteq> j" by simp_all
    then have "choice \<noteq> of_nat j" by (simp add: choice_eq_of_nat)
    then show ?thesis using j by (simp add: tallied_nth)
  next
    case False
    then show ?thesis using j by (simp add: tallied_nth)
  qed
qed

lemma transact_hasVotedClear:
  assumes inv: "invariant s" and voted: "hasVotedClear s proposalId voter"
  shows "hasVotedClear (transact msg_sender t' c s) proposalId voter"
proof (cases c)
  case (CreateProposal t d n duration st q)
  show ?thesis
    using createProposal_cases [OF invariant_fresh [OF inv], of t d n duration st q msg_sender t'] voted
    by (auto simp: CreateProposal after_createProposal_def)
next
  case (Vote p encryptedOption inputProof)
  show ?thesis
    using vote_cases [OF inv, of p encryptedOption inputProof msg_sender t'] voted
    by (auto simp: Vote after_vote_def Let_def)
next
  case (FinalizeProposal p)
  show ?thesis
    using finalizeProposal_cases [OF inv, of p msg_sender t'] voted
    by (auto simp: FinalizeProposal after_finalizeProposal_def)
next
  case (GrantDecryptionPermission p account)
  show ?thesis
    using grantDecryptionPermission_cases [OF inv, of p account msg_sender] voted
    by (auto simp: GrantDecryptionPermission after_grantDecryptionPermission_def)
next
  case (SetProposer account status)
  show ?thesis using voted by (auto simp: SetProposer setProposer_def)
next
  case (SetAdministrator account status)
  show ?thesis using voted by (auto simp: SetAdministrator setAdministrator_def)
next
  case (SetDefaultVotingDuration duration)
  show ?thesis using voted by (auto simp: SetDefaultVotingDuration setDefaultVotingDuration_def)
qed

lemma vote_Inr_after_vote:
  assumes inv: "invariant s"
    and ok: "vote proposalId encryptedOption inputProof msg_sender block_timestamp s = (Inr (), s')"
  shows "s' = after_vote proposalId (ext_plain encryptedOption) msg_sender s"
  using vote_cases [OF inv, of proposalId encryptedOption inputProof
      msg_sender block_timestamp] ok
  by auto

section \<open>Ids never created, in a contract deployed at a positive time\<close>

lemma reachable_since_reachable:
  "reachable_since t0 admissible t s \<Longrightarrow> reachable admissible t s"
  by (induction rule: reachable_since.induct) (auto intro: reachable.intros)

lemma reachable_since_time: "reachable_since t0 admissible t s \<Longrightarrow> t0 \<le> t"
  by (induction rule: reachable_since.induct) auto

lemma transact_unknown:
  assumes inv: "invariant s" and pos: "0 < t'"
    and zero: "\<And>q. proposalCount s \<le> q \<Longrightarrow>
       proposals s q = zero_Proposal \<and> proposalResults s q = zero_ProposalResults"
    and p: "proposalCount (transact msg_sender t' c s) \<le> p"
  shows "proposals (transact msg_sender t' c s) p = zero_Proposal
         \<and> proposalResults (transact msg_sender t' c s) p = zero_ProposalResults"
proof (cases c)
  case (CreateProposal t d n duration st q)
  show ?thesis
    using createProposal_cases [OF invariant_fresh [OF inv], of t d n duration st q msg_sender t'] p zero
    by (auto simp: CreateProposal after_createProposal_def)
next
  case (Vote q encryptedOption inputProof)
  from vote_cases [OF inv, of q encryptedOption inputProof msg_sender t']
  show ?thesis
  proof
    assume "\<exists>e. vote q encryptedOption inputProof msg_sender t' s = (Inl e, s)"
    then show ?thesis using p zero by (auto simp: Vote)
  next
    assume a: "startTime (proposals s q) \<le> t' \<and> t' \<le> endTime (proposals s q)
          \<and> \<not> finalized (proposals s q) \<and> \<not> hasVotedClear s q msg_sender
          \<and> vote q encryptedOption inputProof msg_sender t' s =
            (Inr (), after_vote q (ext_plain encryptedOption) msg_sender s)"
    have "q < proposalCount s"
    proof (rule ccontr)
      assume "\<not> q < proposalCount s"
      then have "endTime (proposals s q) = 0"
        using zero [of q] by (simp add: zero_Proposal_def)
      with a pos show False by simp
    qed
    with a p zero [of p] show ?thesis
      by (auto simp: Vote after_vote_def Let_def)
  qed
next
  case (FinalizeProposal q)
  from finalizeProposal_cases [OF inv, of q msg_sender t']
  show ?thesis
  proof
    assume "\<exists>e s'. finalizeProposal q msg_sender t' s = (Inl e, s')"
    then show ?thesis using p zero by (auto simp: FinalizeProposal)
  next
    assume a: "endTime (proposals s q) < t' \<and> \<not> finalized (proposals s q)
          \<and> (totalVotes (proposalResults s q) \<noteq> Null32
               \<or> strategy (proposals s q) = QUALIFIED_ONLY)
          \<and> finalizeProposal q msg_sender t' s = (Inr (), after_finalizeProposal q s)"
    have "q < proposalCount s"
    proof (rule ccontr)
      assume "\<not> q < proposalCount s"
      then have "totalVotes (proposalResults s q) = Null32"
        and "strategy (proposals s q) = PUBLIC_AFTER_END"
        using zero [of q] by (simp_all add: zero_Proposal_def zero_ProposalResults_def)
      with a show False by simp
    qed
    with a p zero [of p] show ?thesis
      by (auto simp: FinalizeProposal after_finalizeProposal_def)
  qed
next
  case (GrantDecryptionPermission q account)
  show ?thesis
    using grantDecryptionPermission_cases [OF inv, of q account msg_sender] p zero
    by (auto simp: GrantDecryptionPermission after_grantDecryptionPermission_def)
next
  case (SetProposer account status)
  show ?thesis using p zero by (auto simp: SetProposer setProposer_def)
next
  case (SetAdministrator account status)
  show ?thesis using p zero by (auto simp: SetAdministrator setAdministrator_def)
next
  case (SetDefaultVotingDuration duration)
  show ?thesis using p zero by (auto simp: SetDefaultVotingDuration setDefaultVotingDuration_def)
qed

lemma reachable_since_unknown:
  "reachable_since t0 admissible t s \<Longrightarrow> 0 < t0 \<Longrightarrow> proposalCount s \<le> p \<Longrightarrow>
     proposals s p = zero_Proposal \<and> proposalResults s p = zero_ProposalResults"
proof (induction arbitrary: p rule: reachable_since.induct)
  case (deployed_at deployer)
  then show ?case by (simp add: constructor_def)
next
  case (transacted_since t s t' c msg_sender)
  have "t0 \<le> t" by (rule reachable_since_time [OF transacted_since.hyps(1)])
  with transacted_since.hyps(2) transacted_since.prems(1) have pos: "0 < t'" by simp
  show ?case
    by (rule transact_unknown
          [OF reachable_invariant [OF reachable_since_reachable [OF transacted_since.hyps(1)]] pos
            transacted_since.IH [OF transacted_since.prems(1)] transacted_since.prems(2)])
qed

section \<open>The example runs evaluated\<close>

lemma scenario_created_eq:
  "scenario_created st =
     after_createProposal ''t'' ''d'' 3 100 st 1 2 10 (constructor 1)"
  unfolding scenario_created_def transact.simps
  by (subst createProposal_success)
     (simp_all add: days_def invariant_fresh [OF invariant_constructor])

lemma reachable_scenario_created:
  "admissible (constructor 1) (CreateProposal ''t'' ''d'' 3 100 st 1)
     \<Longrightarrow> reachable admissible 10 (scenario_created st)"
  unfolding scenario_created_def
  by (rule reachable.transacted [where t = 0]) (simp_all add: reachable.deployed)

lemma replicate_three: "replicate 3 x = [x, x, x]"
  by (simp add: numeral_3_eq_3)

lemma scenario_created_fields:
  "proposalCount (scenario_created st) = 1"
  "proposals (scenario_created st) 0 =
     \<lparr>title = ''t'', description = ''d'', startTime = 10, endTime = 110, optionCount = 3,
      finalized = False, Proposal.owner = 2, strategy = st, minQuorum = 1\<rparr>"
  "proposalResults (scenario_created st) 0 =
     \<lparr>optionVotes = [Euint32 0, Euint32 0, Euint32 0], totalVotes = Euint32 0\<rparr>"
  "hasVotedClear (scenario_created st) = (\<lambda>_ _. False)"
  "SecretVoting.owner (scenario_created st) = 1"
  by (simp_all add: scenario_created_eq after_createProposal_def constructor_def
        replicate_three)

lemma scenario_finalized_eq:
  "scenario_finalized st = after_finalizeProposal 0 (scenario_created st)"
  unfolding scenario_finalized_def transact.simps
  by (subst finalizeProposal_success) (simp_all add: scenario_created_fields)

lemma reachable_scenario_finalized:
  "reachable any_call 200 (scenario_finalized st)"
  unfolding scenario_finalized_def
  by (rule reachable.transacted [where t = 10])
     (simp_all add: reachable_scenario_created any_call_def)

lemma upt_three: "[0..<3] = [0, 1, 2]"
  by (simp add: numeral_3_eq_3)

lemma scenario_voted_eq:
  "scenario_voted st choice = after_vote 0 choice 7 (scenario_created st)"
  unfolding scenario_voted_def transact.simps
  by (subst vote_success) (simp_all add: scenario_created_fields)

lemma scenario_voted_fields:
  "proposalCount (scenario_voted st choice) = 1"
  "proposals (scenario_voted st choice) 0 = proposals (scenario_created st) 0"
  "proposalResults (scenario_voted st choice) 0 =
     \<lparr>optionVotes = [Euint32 (if choice = 0 then 1 else 0), Euint32 (if choice = 1 then 1 else 0),
                     Euint32 (if choice = 2 then 1 else 0)],
      totalVotes = Euint32 1\<rparr>"
  "hasVotedClear (scenario_voted st choice) 0 7"
  "hasVoted (scenario_voted st choice) 0 7 = Ebool True"
  by (simp_all add: scenario_voted_eq after_vote_def Let_def scenario_created_fields
        tallied_def upt_three)

lemma reachable_scenario_voted:
  "admissible (constructor 1) (CreateProposal ''t'' ''d'' 3 100 st 1)
     \<Longrightarrow> admissible (scenario_created st) (Vote 0 (ExternalEuint8 choice []) [])
     \<Longrightarrow> reachable admissible 20 (scenario_voted st choice)"
  unfolding scenario_voted_def
  by (rule reachable.transacted [where t = 10]) (simp_all add: reachable_scenario_created)

lemma replicate_two: "replicate 2 x = [x, x]"
  by (simp add: numeral_2_eq_2)

lemma upt_two: "[0..<2] = [0, 1]"
  by (simp add: numeral_2_eq_2)

lemma scenario_second_eq:
  "scenario_second =
     after_createProposal ''u'' ''e'' 2 100 PUBLIC_AFTER_END 1 3 12
       (scenario_created PUBLIC_AFTER_END)"
  unfolding scenario_second_def transact.simps
  by (subst createProposal_success)
     (simp_all add: days_def
        invariant_fresh [OF reachable_invariant [OF reachable_scenario_created [of any_call]]]
        any_call_def)

lemma scenario_second_fields:
  "proposalCount scenario_second = 2"
  "proposals scenario_second 0 = proposals (scenario_created PUBLIC_AFTER_END) 0"
  "proposals scenario_second (Suc 0) =
     \<lparr>title = ''u'', description = ''e'', startTime = 12, endTime = 112, optionCount = 2,
      finalized = False, Proposal.owner = 3, strategy = PUBLIC_AFTER_END, minQuorum = 1\<rparr>"
  "proposalResults scenario_second 0 = proposalResults (scenario_created PUBLIC_AFTER_END) 0"
  "proposalResults scenario_second (Suc 0) =
     \<lparr>optionVotes = [Euint32 0, Euint32 0], totalVotes = Euint32 0\<rparr>"
  "hasVotedClear scenario_second = (\<lambda>_ _. False)"
  by (simp_all add: scenario_second_eq after_createProposal_def scenario_created_fields
        replicate_two)

lemma scenario_stray_eq:
  "scenario_stray = after_vote 1 5 8 scenario_second"
  unfolding scenario_stray_def transact.simps
  by (subst vote_success) (simp_all add: scenario_second_fields)

lemma scenario_stray_fields:
  "proposalCount scenario_stray = 2"
  "proposals scenario_stray 0 = proposals (scenario_created PUBLIC_AFTER_END) 0"
  "proposalResults scenario_stray 0 = proposalResults (scenario_created PUBLIC_AFTER_END) 0"
  "proposalResults scenario_stray (Suc 0) =
     \<lparr>optionVotes = [Euint32 0, Euint32 0], totalVotes = Euint32 1\<rparr>"
  "hasVotedClear scenario_stray 0 = (\<lambda>_. False)"
  by (simp_all add: scenario_stray_eq after_vote_def Let_def scenario_second_fields
        tallied_def upt_two)

lemma scenario_stray_voted_eq:
  "scenario_stray_voted = after_vote 0 1 7 scenario_stray"
  unfolding scenario_stray_voted_def transact.simps
  by (subst vote_success) (simp_all add: scenario_stray_fields scenario_created_fields)

lemma scenario_stray_voted_fields:
  "proposalCount scenario_stray_voted = 2"
  "proposalResults scenario_stray_voted 0 =
     \<lparr>optionVotes = [Euint32 0, Euint32 1, Euint32 0], totalVotes = Euint32 1\<rparr>"
  "proposalResults scenario_stray_voted (Suc 0) =
     \<lparr>optionVotes = [Euint32 0, Euint32 0], totalVotes = Euint32 1\<rparr>"
  by (simp_all add: scenario_stray_voted_eq after_vote_def Let_def scenario_stray_fields
        scenario_created_fields tallied_def upt_three)

lemma reachable_scenario_stray_voted:
  "reachable (in_range_votes_on 0) 20 scenario_stray_voted"
proof -
  have "reachable (in_range_votes_on 0) 10 (scenario_created PUBLIC_AFTER_END)"
    by (rule reachable_scenario_created) (simp add: in_range_votes_on_def)
  then have "reachable (in_range_votes_on 0) 12 scenario_second"
    unfolding scenario_second_def
    by (rule reachable.transacted) (simp_all add: in_range_votes_on_def)
  then have "reachable (in_range_votes_on 0) 15 scenario_stray"
    unfolding scenario_stray_def
    by (rule reachable.transacted) (simp_all add: in_range_votes_on_def)
  then show ?thesis
    unfolding scenario_stray_voted_def
    by (rule reachable.transacted)
       (simp_all add: in_range_votes_on_def scenario_stray_fields scenario_created_fields)
qed

section \<open>Claims about createProposal\<close>

text \<open>
  C8. In every reachable state \<open>createProposal\<close> reverts with one of the three
  \<open>InvalidParameters\<close> reasons, leaving the state as it was, exactly when
  \<open>optionCount\<close> is outside \<open>[2, 10]\<close>, or \<open>duration\<close> is 0 or more than 365 days,
  or \<open>minQuorum\<close> is 0. With valid parameters it returns the current \<open>proposalCount\<close>
  as the new id, increments the count, stores the proposal record under that id and
  initialises its tally with \<open>optionCount\<close> encrypted zeros and an encrypted zero total.
\<close>

theorem createProposal_validates_parameters:
  assumes "reachable any_call t s"
  shows
    "((\<exists>e \<in> InvalidParameters.
         createProposal title' description' optionCount' duration strategy' minQuorum'
           msg_sender block_timestamp s = (Inl e, s))
       \<longleftrightarrow> (optionCount' < 2 \<or> 10 < optionCount' \<or> duration = 0 \<or> 365 * days < duration
            \<or> minQuorum' = 0))
     \<and> (\<not> (optionCount' < 2 \<or> 10 < optionCount' \<or> duration = 0 \<or> 365 * days < duration
            \<or> minQuorum' = 0) \<longrightarrow>
         (\<exists>s'. createProposal title' description' optionCount' duration strategy' minQuorum'
                 msg_sender block_timestamp s = (Inr (proposalCount s), s')
            \<and> proposalCount s' = proposalCount s + 1
            \<and> proposals s' (proposalCount s) =
                 \<lparr>title = title', description = description', startTime = block_timestamp,
                  endTime = block_timestamp + duration, optionCount = optionCount',
                  finalized = False, Proposal.owner = msg_sender, strategy = strategy',
                  minQuorum = minQuorum'\<rparr>
            \<and> proposalResults s' (proposalCount s) =
                 \<lparr>optionVotes = replicate (unat optionCount') (Euint32 0),
                  totalVotes = Euint32 0\<rparr>))"
proof -
  let ?bad = "optionCount' < 2 \<or> 10 < optionCount' \<or> duration = 0 \<or> 365 * days < duration
            \<or> minQuorum' = 0"
  let ?run = "createProposal title' description' optionCount' duration strategy' minQuorum'
           msg_sender block_timestamp s"
  have fresh: "optionVotes (proposalResults s (proposalCount s)) = []"
    by (rule invariant_fresh [OF reachable_invariant [OF assms]])
  show ?thesis
  proof (cases ?bad)
    case True
    then have "\<exists>e \<in> InvalidParameters. ?run = (Inl e, s)"
      by (auto simp: createProposal_def InvalidParameters_def not_le)
    with True show ?thesis by simp
  next
    case False
    then have ok: "2 \<le> optionCount'" "optionCount' \<le> 10" "0 < duration"
      "duration \<le> 365 * days" "0 < minQuorum'"
      by (simp_all add: not_less)
    have run: "?run = (Inr (proposalCount s),
        after_createProposal title' description' optionCount' duration strategy' minQuorum'
          msg_sender block_timestamp s)"
      by (rule createProposal_success [OF ok fresh])
    have "\<not> (\<exists>e \<in> InvalidParameters. ?run = (Inl e, s))"
      by (simp add: run)
    moreover have "\<exists>s'. ?run = (Inr (proposalCount s), s')
            \<and> proposalCount s' = proposalCount s + 1
            \<and> proposals s' (proposalCount s) =
                 \<lparr>title = title', description = description', startTime = block_timestamp,
                  endTime = block_timestamp + duration, optionCount = optionCount',
                  finalized = False, Proposal.owner = msg_sender, strategy = strategy',
                  minQuorum = minQuorum'\<rparr>
            \<and> proposalResults s' (proposalCount s) =
                 \<lparr>optionVotes = replicate (unat optionCount') (Euint32 0),
                  totalVotes = Euint32 0\<rparr>"
      by (simp add: run after_createProposal_def)
    ultimately show ?thesis using False by blast
  qed
qed

theorem createProposal_validates_parameters_witness:
  "reachable any_call 0 (constructor 1)
   \<and> fst (createProposal ''t'' ''d'' 3 100 PUBLIC_AFTER_END 1 1 10 (constructor 1)) = Inr 0
   \<and> fst (createProposal ''t'' ''d'' 11 100 PUBLIC_AFTER_END 1 1 10 (constructor 1))
       = Inl Invalid_option_count"
proof -
  have r: "reachable any_call 0 (constructor 1)"
    by (rule reachable.deployed)
  have "fst (createProposal ''t'' ''d'' 3 100 PUBLIC_AFTER_END 1 1 10 (constructor 1)) = Inr 0"
    using createProposal_validates_parameters [OF r, where optionCount' = 3 and duration = 100 and minQuorum' = 1
        and title' = "''t''" and description' = "''d''" and strategy' = PUBLIC_AFTER_END
        and msg_sender = 1 and block_timestamp = 10]
    by (auto simp: days_def constructor_def)
  moreover have "fst (createProposal ''t'' ''d'' 11 100 PUBLIC_AFTER_END 1 1 10 (constructor 1))
       = Inl Invalid_option_count"
    by (simp add: createProposal_def)
  ultimately show ?thesis using r by simp
qed

text \<open>
  C4. The claim is that a caller who is neither owner, administrator nor proposer is
  refused. The contract declares the modifier \<open>onlyProposer\<close> but \<open>createProposal\<close> does
  not carry it: account 2 holds no role in the freshly deployed contract, and its call
  succeeds, returns id 0 and stores a proposal owned by account 2.
\<close>

theorem createProposal_ignores_roles:
  "\<not> onlyProposer 2 (constructor 1)
   \<and> fst (createProposal ''t'' ''d'' 3 100 PUBLIC_AFTER_END 1 2 10 (constructor 1)) = Inr 0
   \<and> proposalCount (scenario_created PUBLIC_AFTER_END) = 1
   \<and> Proposal.owner (proposals (scenario_created PUBLIC_AFTER_END) 0) = 2"
proof -
  have "createProposal ''t'' ''d'' 3 100 PUBLIC_AFTER_END 1 2 10 (constructor 1) =
      (Inr (proposalCount (constructor 1)),
       after_createProposal ''t'' ''d'' 3 100 PUBLIC_AFTER_END 1 2 10 (constructor 1))"
    by (rule createProposal_success)
       (simp_all add: days_def invariant_fresh [OF invariant_constructor])
  then show ?thesis
    by (simp add: scenario_created_eq after_createProposal_def constructor_def onlyProposer_def)
qed

section \<open>Claims about the lifecycle and unknown ids\<close>

text \<open>
  C7. In every reachable state: a vote with \<open>now < startTime\<close> reverts with
  "Voting not started"; a vote with \<open>now > endTime\<close> reverts with "Voting ended";
  \<open>finalizeProposal\<close> with \<open>now \<le> endTime\<close> reverts with "Voting not ended"; and
  \<open>finalizeProposal\<close> on a proposal that is already finalized, at any block timestamp
  not before the latest one, reverts with "Already finalized". In each case the state at
  the point of failure is the state the call started from.
\<close>

theorem lifecycle_failures:
  assumes "reachable any_call t s"
  shows
    "(block_timestamp < startTime (proposals s proposalId) \<longrightarrow>
        vote proposalId encryptedOption inputProof msg_sender block_timestamp s
          = (Inl Voting_not_started, s))
     \<and> (endTime (proposals s proposalId) < block_timestamp \<longrightarrow>
        vote proposalId encryptedOption inputProof msg_sender block_timestamp s
          = (Inl Voting_ended, s))
     \<and> (block_timestamp \<le> endTime (proposals s proposalId) \<longrightarrow>
        finalizeProposal proposalId msg_sender block_timestamp s = (Inl Voting_not_ended, s))
     \<and> (finalized (proposals s proposalId) \<and> t \<le> block_timestamp \<longrightarrow>
        finalizeProposal proposalId msg_sender block_timestamp s = (Inl Already_finalized, s))"
proof (intro conjI impI)
  assume "block_timestamp < startTime (proposals s proposalId)"
  then show "vote proposalId encryptedOption inputProof msg_sender block_timestamp s
          = (Inl Voting_not_started, s)"
    by (simp add: vote_def Let_def)
next
  assume late: "endTime (proposals s proposalId) < block_timestamp"
  have "startTime (proposals s proposalId) \<le> endTime (proposals s proposalId)"
    by (rule invariant_times [OF reachable_invariant [OF assms]])
  with late show "vote proposalId encryptedOption inputProof msg_sender block_timestamp s
          = (Inl Voting_ended, s)"
    by (simp add: vote_def Let_def)
next
  assume "block_timestamp \<le> endTime (proposals s proposalId)"
  then show "finalizeProposal proposalId msg_sender block_timestamp s = (Inl Voting_not_ended, s)"
    by (simp add: finalizeProposal_def Let_def)
next
  assume fin: "finalized (proposals s proposalId) \<and> t \<le> block_timestamp"
  then have "endTime (proposals s proposalId) < t"
    using reachable_finalized_ended [OF assms] by blast
  with fin show "finalizeProposal proposalId msg_sender block_timestamp s = (Inl Already_finalized, s)"
    by (simp add: finalizeProposal_def Let_def)
qed

theorem lifecycle_failures_witness:
  "reachable any_call 10 (scenario_created PUBLIC_AFTER_END)
   \<and> vote 0 (ExternalEuint8 1 []) [] 7 5 (scenario_created PUBLIC_AFTER_END)
       = (Inl Voting_not_started, scenario_created PUBLIC_AFTER_END)
   \<and> vote 0 (ExternalEuint8 1 []) [] 7 111 (scenario_created PUBLIC_AFTER_END)
       = (Inl Voting_ended, scenario_created PUBLIC_AFTER_END)
   \<and> finalizeProposal 0 9 110 (scenario_created PUBLIC_AFTER_END)
       = (Inl Voting_not_ended, scenario_created PUBLIC_AFTER_END)
   \<and> reachable any_call 200 (scenario_finalized PUBLIC_AFTER_END)
   \<and> finalized (proposals (scenario_finalized PUBLIC_AFTER_END) 0)
   \<and> finalizeProposal 0 9 300 (scenario_finalized PUBLIC_AFTER_END)
       = (Inl Already_finalized, scenario_finalized PUBLIC_AFTER_END)"
proof -
  have r: "reachable any_call 10 (scenario_created PUBLIC_AFTER_END)"
    by (rule reachable_scenario_created) (simp add: any_call_def)
  have r': "reachable any_call 200 (scenario_finalized PUBLIC_AFTER_END)"
    by (rule reachable_scenario_finalized)
  have times: "startTime (proposals (scenario_created PUBLIC_AFTER_END) 0) = 10"
      "endTime (proposals (scenario_created PUBLIC_AFTER_END) 0) = 110"
    by (simp_all add: scenario_created_fields)
  have fin: "finalized (proposals (scenario_finalized PUBLIC_AFTER_END) 0)"
    by (simp add: scenario_finalized_eq after_finalizeProposal_def)
  note a = lifecycle_failures [OF r, where proposalId = 0 and block_timestamp = 5
      and encryptedOption = "ExternalEuint8 1 []" and inputProof = "[]" and msg_sender = 7]
  note b = lifecycle_failures [OF r, where proposalId = 0 and block_timestamp = 111
      and encryptedOption = "ExternalEuint8 1 []" and inputProof = "[]" and msg_sender = 7]
  note c = lifecycle_failures [OF r, where proposalId = 0 and block_timestamp = 110
      and msg_sender = 9]
  note d = lifecycle_failures [OF r', where proposalId = 0 and block_timestamp = 300
      and msg_sender = 9]
  show ?thesis
    using r r' fin a b c d by (simp add: times)
qed

text \<open>
  C9 (amended). Reading a proposal through the public getter never fails and changes
  nothing. For an id at or beyond \<open>proposalCount\<close> it returns the all-zero record, in
  which only \<open>finalized\<close> may have been set; there is no "not found" failure.
\<close>

theorem proposals_getter_never_fails:
  assumes "reachable any_call t s"
  shows
    "proposals_getter proposalId s = (Inr (proposals s proposalId), s)
     \<and> (proposalCount s \<le> proposalId \<longrightarrow>
          proposals s proposalId
            = zero_Proposal\<lparr>finalized := finalized (proposals s proposalId)\<rparr>)"
  using invariant_unknown [OF reachable_invariant [OF assms]]
  by (simp add: proposals_getter_def)

theorem proposals_getter_never_fails_witness:
  "reachable any_call 10 (scenario_created OWNER_ONLY)
   \<and> proposalCount (scenario_created OWNER_ONLY) \<le> 1
   \<and> fst (proposals_getter 1 (scenario_created OWNER_ONLY)) = Inr zero_Proposal
   \<and> fst (proposals_getter 0 (scenario_created OWNER_ONLY)) =
       Inr \<lparr>title = ''t'', description = ''d'', startTime = 10, endTime = 110,
            optionCount = 3, finalized = False, Proposal.owner = 2, strategy = OWNER_ONLY,
            minQuorum = 1\<rparr>"
proof -
  have r: "reachable any_call 10 (scenario_created OWNER_ONLY)"
    by (rule reachable_scenario_created) (simp add: any_call_def)
  show ?thesis
    using r proposals_getter_never_fails [OF r, of 1] proposals_getter_never_fails [OF r, of 0]
    by (simp add: scenario_created_fields scenario_created_eq after_createProposal_def
        constructor_def zero_Proposal_def)
qed

text \<open>
  C9 as stated fails: in the freshly deployed contract \<open>proposalCount\<close> is 0, and reading
  id 0 returns the all-zero record instead of failing.
\<close>

theorem proposals_getter_unknown_id_counterexample:
  "proposalCount (constructor 1) \<le> 0
   \<and> proposals_getter 0 (constructor 1) = (Inr zero_Proposal, constructor 1)"
  by (simp add: proposals_getter_def constructor_def)

text \<open>
  C10 (amended). \<open>finalizeProposal\<close> does not check that the id exists and never fails
  for that reason. In a contract deployed at a positive block timestamp, for every id at
  or beyond \<open>proposalCount\<close> and every block timestamp greater than 0, both
  \<open>require\<close>s pass, and the call then reverts in the FHE library with
  \<open>SenderNotAllowed\<close>, when it marks the total of that id, the null handle, publicly
  decryptable. The transaction leaves the state as it was: the id is not finalized and no
  event is emitted.
\<close>

theorem finalizeProposal_unknown_id:
  assumes "reachable_since t0 any_call t s" and "0 < t0"
    and "proposalCount s \<le> proposalId"
    and "0 < block_timestamp"
  shows "endTime (proposals s proposalId) < block_timestamp
     \<and> \<not> finalized (proposals s proposalId)
     \<and> fst (finalizeProposal proposalId msg_sender block_timestamp s) = Inl Sender_not_allowed
     \<and> transact msg_sender block_timestamp (FinalizeProposal proposalId) s = s"
proof -
  have inv: "invariant s"
    by (rule reachable_invariant [OF reachable_since_reachable [OF assms(1)]])
  have zero: "proposals s proposalId = zero_Proposal"
    "proposalResults s proposalId = zero_ProposalResults"
    using reachable_since_unknown [OF assms(1-3)] by simp_all
  have req: "endTime (proposals s proposalId) < block_timestamp"
    "\<not> finalized (proposals s proposalId)"
    using assms(4) by (simp_all add: zero zero_Proposal_def)
  have null: "totalVotes (proposalResults s proposalId) = Null32"
    by (simp add: zero zero_ProposalResults_def)
  have st: "strategy (proposals s proposalId) \<noteq> QUALIFIED_ONLY"
    by (simp add: zero zero_Proposal_def)
  have fails: "fst (finalizeProposal proposalId msg_sender block_timestamp s)
      = Inl Sender_not_allowed"
    by (rule finalizeProposal_null_total
          [OF req invariant_length [OF inv] invariant_not_null [OF inv] null st])
  then have "transact msg_sender block_timestamp (FinalizeProposal proposalId) s = s"
    by (cases "finalizeProposal proposalId msg_sender block_timestamp s") (simp add: commit_def)
  with req fails show ?thesis by simp
qed

theorem finalizeProposal_unknown_id_witness:
  "reachable_since 1 any_call 1 (constructor 1)
   \<and> (0::nat) < 1
   \<and> proposalCount (constructor 1) \<le> 5
   \<and> (0::nat) < 2
   \<and> fst (finalizeProposal 5 9 2 (constructor 1)) = Inl Sender_not_allowed
   \<and> transact 9 2 (FinalizeProposal 5) (constructor 1) = constructor 1"
proof -
  have r: "reachable_since 1 any_call 1 (constructor 1)"
    by (rule reachable_since.deployed_at)
  have c: "proposalCount (constructor 1) \<le> 5" by (simp add: constructor_def)
  show ?thesis
    using r c finalizeProposal_unknown_id [OF r _ c, of 2 9] by simp
qed

text \<open>
  C10 as stated fails: in the freshly deployed contract id 5 was never created and is not
  finalized, and \<open>finalizeProposal\<close> on it at block timestamp 1 does not succeed. It
  reverts with \<open>SenderNotAllowed\<close>; after the transaction the id is still not finalized
  and no event has been emitted.
\<close>

theorem finalizeProposal_unknown_id_counterexample:
  "proposalCount (constructor 1) \<le> 5
   \<and> \<not> finalized (proposals (constructor 1) 5)
   \<and> fst (finalizeProposal 5 9 1 (constructor 1)) = Inl Sender_not_allowed
   \<and> \<not> finalized (proposals (transact 9 1 (FinalizeProposal 5) (constructor 1)) 5)
   \<and> events (transact 9 1 (FinalizeProposal 5) (constructor 1)) = []"
proof -
  have run: "finalizeProposal 5 9 1 (constructor 1) =
      (Inl Sender_not_allowed,
       (constructor 1)\<lparr>proposals := (proposals (constructor 1))
          (5 := zero_Proposal\<lparr>finalized := True\<rparr>)\<rparr>)"
    by (simp add: finalizeProposal_def Let_def constructor_def zero_Proposal_def
        zero_ProposalResults_def for_loop_done FHE_permission_defs)
  have same: "transact 9 1 (FinalizeProposal 5) (constructor 1) = constructor 1"
    by (simp only: transact.simps run commit_Inl)
  have fails: "fst (finalizeProposal 5 9 1 (constructor 1)) = Inl Sender_not_allowed"
    by (simp only: run fst_conv)
  have before: "proposalCount (constructor 1) \<le> 5"
    "\<not> finalized (proposals (constructor 1) 5)" "events (constructor 1) = []"
    by (simp_all add: constructor_def zero_Proposal_def)
  show ?thesis
    unfolding same using before fails by simp
qed

section \<open>Claims about the tally\<close>

text \<open>
  C1 (amended). For every created proposal, in every state reached by transactions in
  which each vote on that proposal carries a choice below its \<open>optionCount\<close>, the
  decrypted total equals the sum of the decrypted per-option counters, taken modulo
  \<open>2 ^ 32\<close> as the counters are 32-bit. Votes on other proposals are not restricted.
\<close>

theorem total_is_sum_of_options:
  assumes "reachable (in_range_votes_on proposalId) t s" and "proposalId < proposalCount s"
  shows "unat (decrypt32 (totalVotes (proposalResults s proposalId)))
     = sum_list (map (\<lambda>c. unat (decrypt32 c)) (optionVotes (proposalResults s proposalId)))
         mod 2 ^ 32"
  using reachable_tally [OF assms]
    unat_sum_list [of "map decrypt32 (optionVotes (proposalResults s proposalId))"]
  by (simp add: comp_def)

text \<open>
  The witness is a run with an out-of-range vote on proposal 1 and an in-range vote on
  proposal 0: the tally of proposal 0 is consistent, that of proposal 1 is not.
\<close>

theorem total_is_sum_of_options_witness:
  "reachable (in_range_votes_on 0) 20 scenario_stray_voted
   \<and> 0 < proposalCount scenario_stray_voted
   \<and> unat (decrypt32 (totalVotes (proposalResults scenario_stray_voted 0))) = 1
   \<and> sum_list (map (\<lambda>c. unat (decrypt32 c))
        (optionVotes (proposalResults scenario_stray_voted 0))) mod 2 ^ 32 = 1
   \<and> decrypt32 (totalVotes (proposalResults scenario_stray_voted 1)) = 1
   \<and> map decrypt32 (optionVotes (proposalResults scenario_stray_voted 1)) = [0, 0]"
proof -
  have r: "reachable (in_range_votes_on 0) 20 scenario_stray_voted"
    by (rule reachable_scenario_stray_voted)
  have c: "0 < proposalCount scenario_stray_voted"
    by (simp add: scenario_stray_voted_fields)
  show ?thesis
    using r c total_is_sum_of_options [OF r c] by (simp add: scenario_stray_voted_fields)
qed

text \<open>
  C1 as stated fails: after account 2 has created the three-option proposal 0, the
  contract accepts the vote of account 7 whose encrypted choice is 5. Every per-option
  counter still decrypts to 0, so their sum is 0, and the total decrypts to 1.
\<close>

theorem total_is_sum_of_options_counterexample:
  "scenario_voted PUBLIC_AFTER_END 5 =
     transact 7 20 (Vote 0 (ExternalEuint8 5 []) [])
       (transact 2 10 (CreateProposal ''t'' ''d'' 3 100 PUBLIC_AFTER_END 1) (constructor 1))
   \<and> 0 < proposalCount (scenario_voted PUBLIC_AFTER_END 5)
   \<and> decrypt32 (totalVotes (proposalResults (scenario_voted PUBLIC_AFTER_END 5) 0)) = 1
   \<and> map decrypt32 (optionVotes (proposalResults (scenario_voted PUBLIC_AFTER_END 5) 0))
       = [0, 0, 0]"
  by (simp add: scenario_voted_fields) (simp add: scenario_voted_def scenario_created_def)

text \<open>
  C3 (amended). The contract does not check the range of the encrypted choice. In every
  reachable state, a vote that passes the four \<open>require\<close>s and the proof check, and whose
  choice is \<open>optionCount\<close> or more, succeeds: every per-option counter keeps its decrypted
  value, the total grows by one, and the caller is marked as having voted. The range check
  is made by the frontend callback alone: for a loaded proposal whose \<open>optionCount\<close> is at
  most the option index it always stops with an error and sends nothing, and with
  "Invalid option" when its earlier checks pass.
\<close>

theorem out_of_range_option_is_counted:
  assumes "reachable any_call t s"
    and "startTime (proposals s proposalId) \<le> block_timestamp"
    and "block_timestamp \<le> endTime (proposals s proposalId)"
    and "\<not> finalized (proposals s proposalId)"
    and "\<not> hasVotedClear s proposalId msg_sender"
    and "inputProof = ext_attestation encryptedOption"
    and "optionCount (proposals s proposalId) \<le> ext_plain encryptedOption"
  shows
    "(\<exists>s'. vote proposalId encryptedOption inputProof msg_sender block_timestamp s = (Inr (), s')
        \<and> map decrypt32 (optionVotes (proposalResults s' proposalId))
            = map decrypt32 (optionVotes (proposalResults s proposalId))
        \<and> decrypt32 (totalVotes (proposalResults s' proposalId))
            = decrypt32 (totalVotes (proposalResults s proposalId)) + 1
        \<and> hasVotedClear s' proposalId msg_sender)
     \<and> (\<forall>p. find (\<lambda>p. proposal_id p = proposalId) loaded = Some p
            \<and> unat (optionCount p) \<le> optionIndex \<longrightarrow>
          (\<exists>e. useSecretVoting_vote ready loaded now inputProof' proposalId optionIndex = Inl e)
          \<and> (ready \<and> startTime p \<le> now \<and> now \<le> endTime p \<and> \<not> finalized p \<longrightarrow>
               useSecretVoting_vote ready loaded now inputProof' proposalId optionIndex
                 = Inl Invalid_option_index))"
proof -
  have inv: "invariant s" by (rule reachable_invariant [OF assms(1)])
  have run: "vote proposalId encryptedOption inputProof msg_sender block_timestamp s
      = (Inr (), after_vote proposalId (ext_plain encryptedOption) msg_sender s)"
    by (rule vote_success [OF assms(2-6) invariant_length [OF inv] invariant_not_null [OF inv]])
  have "unat (optionCount (proposals s proposalId)) \<le> unat (ext_plain encryptedOption)"
    using assms(7) by (simp add: word_le_nat_alt)
  then have same: "map decrypt32
      (tallied (ext_plain encryptedOption) 0 (unat (optionCount (proposals s proposalId)))
         (optionVotes (proposalResults s proposalId)))
      = map decrypt32 (optionVotes (proposalResults s proposalId))"
    by (rule tallied_out_of_range)
  have contract: "\<exists>s'. vote proposalId encryptedOption inputProof msg_sender block_timestamp s = (Inr (), s')
        \<and> map decrypt32 (optionVotes (proposalResults s' proposalId))
            = map decrypt32 (optionVotes (proposalResults s proposalId))
        \<and> decrypt32 (totalVotes (proposalResults s' proposalId))
            = decrypt32 (totalVotes (proposalResults s proposalId)) + 1
        \<and> hasVotedClear s' proposalId msg_sender"
    by (simp add: run after_vote_def Let_def same)
  have hook: "\<forall>p. find (\<lambda>p. proposal_id p = proposalId) loaded = Some p
            \<and> unat (optionCount p) \<le> optionIndex \<longrightarrow>
          (\<exists>e. useSecretVoting_vote ready loaded now inputProof' proposalId optionIndex = Inl e)
          \<and> (ready \<and> startTime p \<le> now \<and> now \<le> endTime p \<and> \<not> finalized p \<longrightarrow>
               useSecretVoting_vote ready loaded now inputProof' proposalId optionIndex
                 = Inl Invalid_option_index)"
    by (auto simp: useSecretVoting_vote_def)
  from contract hook show ?thesis by blast
qed

theorem out_of_range_option_is_counted_witness:
  "reachable any_call 10 (scenario_created PUBLIC_AFTER_END)
   \<and> optionCount (proposals (scenario_created PUBLIC_AFTER_END) 0) \<le> 5
   \<and> fst (vote 0 (ExternalEuint8 5 []) [] 7 20 (scenario_created PUBLIC_AFTER_END)) = Inr ()
   \<and> useSecretVoting_vote True
        [Proposal.extend (proposals (scenario_created PUBLIC_AFTER_END) 0)
           (LoadedProposal.fields 0)] 20 [] 0 5 = Inl Invalid_option_index"
proof -
  have r: "reachable any_call 10 (scenario_created PUBLIC_AFTER_END)"
    by (rule reachable_scenario_created) (simp add: any_call_def)
  note w = out_of_range_option_is_counted [OF r,
      where proposalId = 0 and block_timestamp = 20 and msg_sender = 7
        and inputProof = "[]" and encryptedOption = "ExternalEuint8 5 []"
        and loaded = "[Proposal.extend (proposals (scenario_created PUBLIC_AFTER_END) 0)
           (LoadedProposal.fields 0)]"
        and optionIndex = 5 and ready = True and now = 20 and inputProof' = "[]"]
  have le: "optionCount (proposals (scenario_created PUBLIC_AFTER_END) 0) \<le> 5"
    by (simp add: scenario_created_fields)
  have "fst (vote 0 (ExternalEuint8 5 []) [] 7 20 (scenario_created PUBLIC_AFTER_END)) = Inr ()"
    using w le by (auto simp: scenario_created_fields)
  moreover have "useSecretVoting_vote True
        [Proposal.extend (proposals (scenario_created PUBLIC_AFTER_END) 0)
           (LoadedProposal.fields 0)] 20 [] 0 5 = Inl Invalid_option_index"
    using w le
    by (simp add: scenario_created_fields Proposal.extend_def LoadedProposal.fields_def)
  ultimately show ?thesis using r le by simp
qed

text \<open>
  C3 as stated fails: on the three-option proposal 0 a vote with the encrypted choice 5 is
  not rejected, and it changes the total counter from 0 to 1.
\<close>

theorem out_of_range_option_counterexample:
  "optionCount (proposals (scenario_created PUBLIC_AFTER_END) 0) \<le> 5
   \<and> fst (vote 0 (ExternalEuint8 5 []) [] 7 20 (scenario_created PUBLIC_AFTER_END)) = Inr ()
   \<and> totalVotes (proposalResults (scenario_created PUBLIC_AFTER_END) 0) = Euint32 0
   \<and> totalVotes (proposalResults
        (snd (vote 0 (ExternalEuint8 5 []) [] 7 20 (scenario_created PUBLIC_AFTER_END))) 0)
       = Euint32 1"
proof -
  have "vote 0 (ExternalEuint8 5 []) [] 7 20 (scenario_created PUBLIC_AFTER_END)
      = (Inr (), after_vote 0 5 7 (scenario_created PUBLIC_AFTER_END))"
    by (subst vote_success) (simp_all add: scenario_created_fields)
  then show ?thesis
    by (simp add: scenario_created_fields after_vote_def Let_def)
qed

section \<open>Claims about repeated votes\<close>

text \<open>
  C5 (amended). In every reachable state a successful vote sets the caller's has-voted
  flag for the proposal, and no transaction clears a flag that is set. Once the flag is
  set, every vote of that voter on that proposal, whatever choice and proof it carries,
  reverts in one of the four \<open>require\<close>s, which all precede the import of the encrypted
  choice: the state at the point of failure is the state before the call, so no counter
  has changed and no FHE operation or permission call has been made. The reason is
  "Already voted" when the call is made inside the voting window of a proposal that is
  not finalized; outside it the timing checks, which come first, give the reason.
\<close>

theorem repeated_vote_rejected:
  assumes "reachable any_call t s"
  shows
    "(vote proposalId encryptedOption inputProof voter block_timestamp s = (Inr (), s')
        \<longrightarrow> hasVotedClear s' proposalId voter)
     \<and> (hasVotedClear s proposalId voter \<longrightarrow>
          hasVotedClear (transact msg_sender t' c s) proposalId voter
          \<and> (\<exists>e \<in> {Voting_not_started, Voting_ended, Proposal_finalized, Already_voted}.
                vote proposalId encryptedOption' inputProof' voter now s = (Inl e, s))
          \<and> (startTime (proposals s proposalId) \<le> now \<and> now \<le> endTime (proposals s proposalId)
                \<and> \<not> finalized (proposals s proposalId) \<longrightarrow>
              vote proposalId encryptedOption' inputProof' voter now s = (Inl Already_voted, s)))"
proof -
  have inv: "invariant s" by (rule reachable_invariant [OF assms])
  have first: "vote proposalId encryptedOption inputProof voter block_timestamp s = (Inr (), s')
        \<longrightarrow> hasVotedClear s' proposalId voter"
  proof
    assume "vote proposalId encryptedOption inputProof voter block_timestamp s = (Inr (), s')"
    then have "s' = after_vote proposalId (ext_plain encryptedOption) voter s"
      by (rule vote_Inr_after_vote [OF inv])
    then show "hasVotedClear s' proposalId voter"
      by (simp add: after_vote_def Let_def)
  qed
  have later: "hasVotedClear s proposalId voter \<longrightarrow>
          hasVotedClear (transact msg_sender t' c s) proposalId voter
          \<and> (\<exists>e \<in> {Voting_not_started, Voting_ended, Proposal_finalized, Already_voted}.
                vote proposalId encryptedOption' inputProof' voter now s = (Inl e, s))
          \<and> (startTime (proposals s proposalId) \<le> now \<and> now \<le> endTime (proposals s proposalId)
                \<and> \<not> finalized (proposals s proposalId) \<longrightarrow>
              vote proposalId encryptedOption' inputProof' voter now s = (Inl Already_voted, s))"
  proof (intro impI conjI)
    assume voted: "hasVotedClear s proposalId voter"
    show "hasVotedClear (transact msg_sender t' c s) proposalId voter"
      by (rule transact_hasVotedClear [OF inv voted])
    show "\<exists>e \<in> {Voting_not_started, Voting_ended, Proposal_finalized, Already_voted}.
                vote proposalId encryptedOption' inputProof' voter now s = (Inl e, s)"
      using voted by (simp add: vote_def Let_def)
    show "vote proposalId encryptedOption' inputProof' voter now s = (Inl Already_voted, s)"
      if "startTime (proposals s proposalId) \<le> now \<and> now \<le> endTime (proposals s proposalId)
                \<and> \<not> finalized (proposals s proposalId)"
      using voted that by (simp add: vote_def Let_def)
  qed
  from first later show ?thesis by blast
qed

theorem repeated_vote_rejected_witness:
  "reachable any_call 10 (scenario_created PUBLIC_AFTER_END)
   \<and> vote 0 (ExternalEuint8 0 []) [] 7 20 (scenario_created PUBLIC_AFTER_END)
       = (Inr (), scenario_voted PUBLIC_AFTER_END 0)
   \<and> reachable any_call 20 (scenario_voted PUBLIC_AFTER_END 0)
   \<and> hasVotedClear (scenario_voted PUBLIC_AFTER_END 0) 0 7
   \<and> vote 0 (ExternalEuint8 1 []) [] 7 30 (scenario_voted PUBLIC_AFTER_END 0)
       = (Inl Already_voted, scenario_voted PUBLIC_AFTER_END 0)"
proof -
  have r: "reachable any_call 10 (scenario_created PUBLIC_AFTER_END)"
    by (rule reachable_scenario_created) (simp add: any_call_def)
  have r': "reachable any_call 20 (scenario_voted PUBLIC_AFTER_END 0)"
    by (rule reachable_scenario_voted) (simp_all add: any_call_def)
  have v: "vote 0 (ExternalEuint8 0 []) [] 7 20 (scenario_created PUBLIC_AFTER_END)
       = (Inr (), scenario_voted PUBLIC_AFTER_END 0)"
    unfolding scenario_voted_eq
    by (subst vote_success) (simp_all add: scenario_created_fields)
  have f: "hasVotedClear (scenario_voted PUBLIC_AFTER_END 0) 0 7"
    using repeated_vote_rejected [OF r, where proposalId = 0 and voter = 7
        and encryptedOption = "ExternalEuint8 0 []" and inputProof = "[]"
        and block_timestamp = 20 and s' = "scenario_voted PUBLIC_AFTER_END 0"] v
    by simp
  have "vote 0 (ExternalEuint8 1 []) [] 7 30 (scenario_voted PUBLIC_AFTER_END 0)
       = (Inl Already_voted, scenario_voted PUBLIC_AFTER_END 0)"
    using repeated_vote_rejected [OF r', where proposalId = 0 and voter = 7
        and encryptedOption' = "ExternalEuint8 1 []" and inputProof' = "[]" and now = 30] f
    by (simp add: scenario_voted_fields scenario_created_fields)
  with r r' v f show ?thesis by simp
qed

text \<open>
  C5 as stated fails: account 7 has voted on proposal 0, which ends at time 110; its
  second attempt at time 200 reverts with "Voting ended", not with "Already voted".
\<close>

theorem repeated_vote_after_end_counterexample:
  "hasVotedClear (scenario_voted PUBLIC_AFTER_END 0) 0 7
   \<and> vote 0 (ExternalEuint8 1 []) [] 7 200 (scenario_voted PUBLIC_AFTER_END 0)
       = (Inl Voting_ended, scenario_voted PUBLIC_AFTER_END 0)"
  by (simp add: vote_def Let_def scenario_voted_fields scenario_created_fields)

section \<open>Claims about permissions\<close>

text \<open>
  C6 (amended). In every reachable state, a successful vote on a proposal whose strategy
  is \<open>OWNER_ONLY\<close> does perform permission actions: it grants the proposal's owner
  persistent decrypt permission on every updated per-option counter and on the updated
  total. On a counter or the total it makes no persistent grant to any other account, no
  transient grant, and it marks none of them publicly decryptable; the contract's own
  \<open>allowThis\<close> is not a grant to an account.
\<close>

theorem vote_OWNER_ONLY_grants_proposal_owner:
  assumes "reachable any_call t s"
    and "strategy (proposals s proposalId) = OWNER_ONLY"
    and "vote proposalId encryptedOption inputProof msg_sender block_timestamp s = (Inr (), s')"
  shows "\<exists>new. aclCalls s' = aclCalls s @ new
     \<and> (\<forall>c \<in> set (optionVotes (proposalResults s' proposalId)).
           Allow (Ct32 c) (Proposal.owner (proposals s proposalId)) \<in> set new)
     \<and> Allow (Ct32 (totalVotes (proposalResults s' proposalId)))
           (Proposal.owner (proposals s proposalId)) \<in> set new
     \<and> (\<forall>c a. Allow (Ct32 c) a \<in> set new \<longrightarrow> a = Proposal.owner (proposals s proposalId))
     \<and> (\<forall>c a. AllowTransient (Ct32 c) a \<notin> set new)
     \<and> (\<forall>c. MakePubliclyDecryptable (Ct32 c) \<notin> set new)"
proof -
  have s': "s' = after_vote proposalId (ext_plain encryptedOption) msg_sender s"
    by (rule vote_Inr_after_vote [OF reachable_invariant [OF assms(1)] assms(3)])
  let ?counters = "optionVotes (proposalResults s' proposalId)"
  let ?tot = "totalVotes (proposalResults s' proposalId)"
  let ?owner = "Proposal.owner (proposals s proposalId)"
  let ?new = "[AllowTransient (Ct8 (Euint8 (ext_plain encryptedOption))) msg_sender]
     @ map (\<lambda>c. AllowThis (Ct32 c)) ?counters
     @ [AllowThis (Ct32 ?tot), Allow (CtBool (Ebool True)) msg_sender]
     @ map (\<lambda>c. Allow (Ct32 c) ?owner) ?counters
     @ [Allow (Ct32 ?tot) ?owner]"
  have "aclCalls s' = aclCalls s @ ?new"
    using assms(2) by (simp add: s' after_vote_def Let_def vote_permission_calls_def)
  moreover have "\<forall>c \<in> set ?counters. Allow (Ct32 c) ?owner \<in> set ?new" by simp
  moreover have "Allow (Ct32 ?tot) ?owner \<in> set ?new" by simp
  moreover have "\<forall>c a. Allow (Ct32 c) a \<in> set ?new \<longrightarrow> a = ?owner" by auto
  moreover have "\<forall>c a. AllowTransient (Ct32 c) a \<notin> set ?new" by auto
  moreover have "\<forall>c. MakePubliclyDecryptable (Ct32 c) \<notin> set ?new" by auto
  ultimately show ?thesis by blast
qed

theorem vote_OWNER_ONLY_grants_proposal_owner_witness:
  "reachable any_call 10 (scenario_created OWNER_ONLY)
   \<and> strategy (proposals (scenario_created OWNER_ONLY) 0) = OWNER_ONLY
   \<and> vote 0 (ExternalEuint8 1 []) [] 7 20 (scenario_created OWNER_ONLY)
       = (Inr (), scenario_voted OWNER_ONLY 1)
   \<and> Allow (Ct32 (Euint32 1)) 2 \<in> set (aclCalls (scenario_voted OWNER_ONLY 1))"
proof -
  have r: "reachable any_call 10 (scenario_created OWNER_ONLY)"
    by (rule reachable_scenario_created) (simp add: any_call_def)
  have st: "strategy (proposals (scenario_created OWNER_ONLY) 0) = OWNER_ONLY"
    by (simp add: scenario_created_fields)
  have v: "vote 0 (ExternalEuint8 1 []) [] 7 20 (scenario_created OWNER_ONLY)
       = (Inr (), scenario_voted OWNER_ONLY 1)"
    unfolding scenario_voted_eq
    by (subst vote_success) (simp_all add: scenario_created_fields)
  from vote_OWNER_ONLY_grants_proposal_owner [OF r st v]
  obtain new where "aclCalls (scenario_voted OWNER_ONLY 1)
        = aclCalls (scenario_created OWNER_ONLY) @ new"
    and "Allow (Ct32 (totalVotes (proposalResults (scenario_voted OWNER_ONLY 1) 0)))
           (Proposal.owner (proposals (scenario_created OWNER_ONLY) 0)) \<in> set new"
    by blast
  then have "Allow (Ct32 (Euint32 1)) 2 \<in> set (aclCalls (scenario_voted OWNER_ONLY 1))"
    by (simp add: scenario_voted_fields scenario_created_fields)
  with r st v show ?thesis by simp
qed

text \<open>
  C6 as stated fails: the vote of account 7 on the \<open>OWNER_ONLY\<close> proposal 0 grants
  account 2, the proposal's owner, persistent permission on the updated counters.
\<close>

theorem vote_OWNER_ONLY_counterexample:
  "strategy (proposals (scenario_created OWNER_ONLY) 0) = OWNER_ONLY
   \<and> fst (vote 0 (ExternalEuint8 1 []) [] 7 20 (scenario_created OWNER_ONLY)) = Inr ()
   \<and> Allow (Ct32 (Euint32 1)) 2
       \<in> set (aclCalls (snd (vote 0 (ExternalEuint8 1 []) [] 7 20 (scenario_created OWNER_ONLY))))
   \<and> Allow (Ct32 (Euint32 1)) 2 \<notin> set (aclCalls (scenario_created OWNER_ONLY))"
proof -
  have "vote 0 (ExternalEuint8 1 []) [] 7 20 (scenario_created OWNER_ONLY)
      = (Inr (), after_vote 0 1 7 (scenario_created OWNER_ONLY))"
    by (subst vote_success) (simp_all add: scenario_created_fields)
  moreover have "aclCalls (scenario_created OWNER_ONLY)
      = replicate 4 (AllowThis (Ct32 (Euint32 0)))"
    by (simp add: scenario_created_eq after_createProposal_def constructor_def)
  ultimately show ?thesis
    by (simp add: scenario_created_fields after_vote_def Let_def vote_permission_calls_def)
qed

text \<open>
  C2. The claim is that finalizing an \<open>OWNER_ONLY\<close> proposal grants the tally to the
  proposal's owner and to no one else. In the example the proposal's owner is account 2
  and the contract's owner is account 1: the four grants of \<open>finalizeProposal\<close> all go to
  account 1, none to account 2.
\<close>

theorem finalizeProposal_OWNER_ONLY_grants_contract_owner:
  "strategy (proposals (scenario_created OWNER_ONLY) 0) = OWNER_ONLY
   \<and> Proposal.owner (proposals (scenario_created OWNER_ONLY) 0) = 2
   \<and> SecretVoting.owner (scenario_created OWNER_ONLY) = 1
   \<and> finalizeProposal 0 9 200 (scenario_created OWNER_ONLY)
       = (Inr (), scenario_finalized OWNER_ONLY)
   \<and> aclCalls (scenario_finalized OWNER_ONLY) = aclCalls (scenario_created OWNER_ONLY)
       @ [Allow (Ct32 (Euint32 0)) 1, Allow (Ct32 (Euint32 0)) 1, Allow (Ct32 (Euint32 0)) 1,
          Allow (Ct32 (Euint32 0)) 1]"
proof -
  have "finalizeProposal 0 9 200 (scenario_created OWNER_ONLY)
       = (Inr (), scenario_finalized OWNER_ONLY)"
    unfolding scenario_finalized_eq
    by (subst finalizeProposal_success) (simp_all add: scenario_created_fields)
  then show ?thesis
    by (simp add: scenario_finalized_eq after_finalizeProposal_def finalize_permission_calls_def
        scenario_created_fields)
qed

end
